theory Spec2Isabelle
  imports Main
begin

section \<open>JavaScript values\<close>

text \<open>
  The values that flow through the routing core.  An object is its property table: every
  property that a read \<open>obj[name]\<close> can see is listed, a missing entry reads as
  \<open>undefined\<close>.  Functions and promises are opaque and known by an identity only;
  \<open>JNext\<close> is the continuation handle \<open>next\<close> of the running handler.  Numbers are
  integers (no \<open>NaN\<close>), and the built-in properties of primitives are not modelled: a
  property read on a primitive, a function or a promise gives \<open>undefined\<close>.
\<close>

datatype jsval =
    JUndefined
  | JNull
  | JBool bool
  | JNum int
  | JStr string
  | JObj "(string \<times> jsval) list"
  | JFun nat
  | JNext
  | JPromise nat

text \<open>What a handler can throw: a JavaScript \<open>TypeError\<close>, the HTTP error of
  \<open>ctx.throw(status)\<close>, or an error of the application (a rejected promise, a throwing
  collaborator), known by an identity.\<close>

datatype error = TypeError | HttpError nat | AppError nat

definition andThen :: "error + 'a \<Rightarrow> ('a \<Rightarrow> error + 'b) \<Rightarrow> error + 'b" where
  "andThen r f = (case r of Inl e \<Rightarrow> Inl e | Inr v \<Rightarrow> f v)"

fun truthy :: "jsval \<Rightarrow> bool" where
  "truthy JUndefined = False"
| "truthy JNull = False"
| "truthy (JBool b) = b"
| "truthy (JNum n) = (n \<noteq> 0)"
| "truthy (JStr s) = (s \<noteq> [])"
| "truthy (JObj ps) = True"
| "truthy (JFun f) = True"
| "truthy JNext = True"
| "truthy (JPromise p) = True"

text \<open>The property read \<open>v[name]\<close>; reading a property of \<open>undefined\<close> or \<open>null\<close>
  throws.\<close>

fun getProp :: "jsval \<Rightarrow> string \<Rightarrow> error + jsval" where
  "getProp JUndefined name = Inl TypeError"
| "getProp JNull name = Inl TypeError"
| "getProp (JObj ps) name = Inr (case map_of ps name of Some v \<Rightarrow> v | None \<Rightarrow> JUndefined)"
| "getProp v name = Inr JUndefined"

text \<open>The assignment \<open>obj[name] = v\<close> on a property table.\<close>

fun setProp :: "(string \<times> jsval) list \<Rightarrow> string \<Rightarrow> jsval \<Rightarrow> (string \<times> jsval) list" where
  "setProp [] name v = [(name, v)]"
| "setProp ((k, w) # ps) name v = (if k = name then (k, v) # ps else (k, w) # setProp ps name v)"

section \<open>Path join (utils.ts)\<close>

definition isSlash :: "char \<Rightarrow> bool" where
  "isSlash c = (c = CHR ''/'')"

text \<open>\<open>strArray.join('/')\<close>.\<close>

fun join :: "string list \<Rightarrow> string" where
  "join [] = []"
| "join [s] = s"
| "join (s # t # ss) = s @ CHR ''/'' # join (t # ss)"

text \<open>\<open>str.replace(/\/{2,}/g, '/')\<close>: scanning from the left, each match is a slash
  followed by at least one more; the match is greedy, so it takes the whole run, puts one
  slash in its place and the scan goes on behind it.\<close>

function replaceSlashRuns :: "string \<Rightarrow> string" where
  "replaceSlashRuns [] = []"
| "replaceSlashRuns (c # cs) =
     (if isSlash c \<and> cs \<noteq> [] \<and> isSlash (hd cs)
      then CHR ''/'' # replaceSlashRuns (dropWhile isSlash cs)
      else c # replaceSlashRuns cs)"
  by pat_completeness auto
termination
  by (relation "measure length") (auto simp: length_dropWhile_le less_Suc_eq_le)

text \<open>\<open>str.replace(/\/+$/, '')\<close>: the first position from which only slashes follow up
  to the end starts the single match, which is cut off.\<close>

fun stripTrailingSlashes :: "string \<Rightarrow> string" where
  "stripTrailingSlashes [] = []"
| "stripTrailingSlashes (c # cs) =
     (if isSlash c \<and> list_all isSlash cs then [] else c # stripTrailingSlashes cs)"

text \<open>\<open>normalize\<close> of the source (the name is taken in HOL).\<close>

definition normalize_path :: "string list \<Rightarrow> string" where
  "normalize_path strArray =
     (if length strArray = 0 then []
      else let str = join strArray;
               str = replaceSlashRuns str
           in if length (filter (\<lambda>c. \<not> isSlash c) str) > 0
              then stripTrailingSlashes str
              else str)"

definition isString :: "jsval \<Rightarrow> bool" where
  "isString v = (case v of JStr s \<Rightarrow> True | _ \<Rightarrow> False)"

definition pathJoin :: "jsval list \<Rightarrow> string" where
  "pathJoin args =
     (let parts = concat (map (\<lambda>v. case v of JStr s \<Rightarrow> [s] | _ \<Rightarrow> []) (filter isString args))
      in normalize_path parts)"

subsection \<open>The specification's wording of path join\<close>

text \<open>Collapse any run of two or more consecutive slashes into one.\<close>

fun collapseSlashes :: "string \<Rightarrow> string" where
  "collapseSlashes [] = []"
| "collapseSlashes [c] = [c]"
| "collapseSlashes (a # b # cs) =
     (if isSlash a \<and> isSlash b then collapseSlashes (b # cs) else a # collapseSlashes (b # cs))"

definition dropTrailingSlashes :: "string \<Rightarrow> string" where
  "dropTrailingSlashes s = rev (dropWhile isSlash (rev s))"

definition hasNonSlash :: "string \<Rightarrow> bool" where
  "hasNonSlash s = (filter (\<lambda>c. \<not> isSlash c) s \<noteq> [])"

text \<open>What \<open>normalize\<close> does to the joined string, in the wording above.\<close>

definition normalizeJoined :: "string \<Rightarrow> string" where
  "normalizeJoined s =
     (let str = collapseSlashes s in if hasNonSlash str then dropTrailingSlashes str else str)"

text \<open>Drop the segments that are not strings, concatenate the rest with a slash between
  them, collapse the runs of slashes, and strip the trailing slashes unless the result
  consists of slashes only, which becomes a single slash.\<close>

definition pathJoin_spec :: "jsval list \<Rightarrow> string" where
  "pathJoin_spec args =
     (let segments = [s. JStr s \<leftarrow> args];
          collapsed = collapseSlashes (join segments)
      in if collapsed \<noteq> [] \<and> list_all isSlash collapsed then ''/''
         else dropTrailingSlashes collapsed)"

section \<open>Parameter extraction (server.ts)\<close>

text \<open>Modelled from the spec: the enumeration \<open>PARAMETER_TYPE\<close> of \<open>constants.ts\<close>, which
  is not among the sources.  Its nine members are the source kinds of the specification
  and the names used by \<open>extractParameters\<close> and the decorators; \<open>OTHER\<close> stands for any
  value outside the nine, which reaches the \<open>default\<close> branch of the switch.\<close>

datatype PARAMETER_TYPE =
  REQUEST | RESPONSE | PARAMS | QUERY | BODY | HEADERS | COOKIES | NEXT | CTX | OTHER

record ParameterMetadata =
  parameterName :: string
  index :: nat
  type :: PARAMETER_TYPE

text \<open>A method call \<open>receiver.name(arguments)\<close> into code outside the repository (the
  cookie jar's \<open>get\<close>): receiver, method name, arguments.\<close>

type_synonym method_call = "jsval \<Rightarrow> string \<Rightarrow> jsval list \<Rightarrow> error + jsval"

definition checkQueryParam :: "method_call \<Rightarrow> string option \<Rightarrow> jsval \<Rightarrow> string \<Rightarrow> error + jsval" where
  "checkQueryParam call paramType param name =
     (if paramType = Some ''query'' then Inr JUndefined
      else if paramType = Some ''cookies'' then call param ''get'' [JStr name]
      else Inr param)"

definition getParam :: "method_call \<Rightarrow> jsval \<Rightarrow> string option \<Rightarrow> string \<Rightarrow> error + jsval" where
  "getParam call source paramType name =
     andThen
       (case paramType of
          None \<Rightarrow> Inr source
        | Some pt \<Rightarrow> andThen (getProp source pt) (\<lambda>v. Inr (if truthy v then v else source)))
       (\<lambda>param. andThen (getProp param name)
          (\<lambda>v. if truthy v then Inr v else checkQueryParam call paramType param name))"

text \<open>The switch of \<open>extractParameters\<close>: the value stored at \<open>args[item.index]\<close>.\<close>

definition slotValue :: "method_call \<Rightarrow> jsval \<Rightarrow> jsval \<Rightarrow> ParameterMetadata \<Rightarrow> error + jsval" where
  "slotValue call ctx nxt item =
     (case type item of
        RESPONSE \<Rightarrow> andThen (getProp ctx ''response'') (\<lambda>r. getParam call r None (parameterName item))
      | REQUEST \<Rightarrow> andThen (getProp ctx ''request'') (\<lambda>r. getParam call r None (parameterName item))
      | NEXT \<Rightarrow> Inr nxt
      | CTX \<Rightarrow> getParam call ctx None (parameterName item)
      | PARAMS \<Rightarrow> getParam call ctx (Some ''params'') (parameterName item)
      | QUERY \<Rightarrow> getParam call ctx (Some ''query'') (parameterName item)
      | BODY \<Rightarrow> andThen (getProp ctx ''request'') (\<lambda>r. getParam call r (Some ''body'') (parameterName item))
      | HEADERS \<Rightarrow> andThen (getProp ctx ''request'') (\<lambda>r. getParam call r (Some ''headers'') (parameterName item))
      | COOKIES \<Rightarrow> getParam call ctx (Some ''cookies'') (parameterName item)
      | OTHER \<Rightarrow> Inr ctx)"

text \<open>A JavaScript array with holes: \<open>None\<close> is an index that was never set.  The
  assignment \<open>args[i] = v\<close> beyond the end extends the array with holes.\<close>

definition assignIndex :: "jsval option list \<Rightarrow> nat \<Rightarrow> jsval \<Rightarrow> jsval option list" where
  "assignIndex args i v =
     (if i < length args then args[i := Some v]
      else args @ replicate (i - length args) None @ [Some v])"

text \<open>The loop \<open>for (const item of params)\<close>.\<close>

fun fillArgs :: "method_call \<Rightarrow> jsval \<Rightarrow> jsval \<Rightarrow> ParameterMetadata list \<Rightarrow> jsval option list
    \<Rightarrow> error + jsval option list" where
  "fillArgs call ctx nxt [] args = Inr args"
| "fillArgs call ctx nxt (item # rest) args =
     andThen (slotValue call ctx nxt item)
       (\<lambda>v. fillArgs call ctx nxt rest (assignIndex args (index item) v))"

definition extractParameters :: "method_call \<Rightarrow> jsval \<Rightarrow> jsval \<Rightarrow> ParameterMetadata list
    \<Rightarrow> error + jsval option list" where
  "extractParameters call ctx nxt params =
     (if length params = 0 then Inr [Some ctx, Some nxt]
      else andThen (fillArgs call ctx nxt params [])
             (\<lambda>args. Inr (args @ [Some ctx, Some nxt])))"

section \<open>Request context, principal and handlers (interfaces.ts, server.ts)\<close>

text \<open>Each method of a principal returns a promise; the model keeps what awaiting it gives:
  the boolean it resolves to, or the error it is rejected with.\<close>

record Principal =
  details :: jsval
  isAuthenticated :: "error + bool"
  isInRole :: "string \<Rightarrow> error + bool"
  isResourceOwner :: "jsval \<Rightarrow> error + bool"

text \<open>The per-request context: the property table of \<open>ctx\<close> (\<open>request\<close>, \<open>response\<close>,
  \<open>params\<close>, \<open>query\<close>, \<open>cookies\<close>, \<open>body\<close>, \<open>headerSent\<close>, ...) and \<open>ctx.state.principal\<close>,
  which is \<open>None\<close> when it is missing or falsy.\<close>

record RouterContext =
  props :: "(string \<times> jsval) list"
  principal :: "Principal option"

text \<open>A handler returns a value and leaves the context changed, or throws.  The
  continuation \<open>next\<close> runs the rest of the chain on the context as it is then.\<close>

type_synonym outcome = "error + jsval \<times> RouterContext"
type_synonym continuation = "RouterContext \<Rightarrow> outcome"
type_synonym handler_fn = "RouterContext \<Rightarrow> continuation \<Rightarrow> outcome"

text \<open>The request handlers (\<open>KoaRequestHandler\<close>) that occur in a chain, as data: a handler
  function of the application, the wrapper that \<open>resolveMiddleware\<close> puts around a
  \<open>BaseMiddleware\<close> instance, the closure made by \<open>authorizationHandlerFactory\<close> with the
  roles it holds, the closure made by \<open>handlerFactory\<close> with the controller name, the method
  key and the parameter list it holds, and a service identifier that was passed on as it is
  although it is no function.\<close>

datatype KoaRequestHandler =
    HandlerFn nat
  | BaseMiddlewareWrapper nat
  | AuthorizationHandler "string list"
  | ControllerHandler string string "ParameterMetadata list"
  | NotAFunction string

datatype Middleware = ServiceIdentifier string | Handler KoaRequestHandler

text \<open>What \<open>container.get\<close> gives for a bound middleware reference.\<close>

datatype MiddlewareInstance = BaseMiddlewareInstance nat | HandlerInstance KoaRequestHandler

record AuthorizeAllMetadata =
  requiredRoles :: "string list"
  target :: string

record AuthorizeMetadata = AuthorizeAllMetadata +
  key :: string

record ControllerMetadata =
  path :: string
  middleware :: "Middleware list"
  target :: string

text \<open>The field \<open>method\<close> of the source is \<open>method'\<close> here, the plain word being
  reserved.\<close>

record ControllerMethodMetadata = ControllerMetadata +
  method' :: string
  key :: string

text \<open>A controller instance, as the metadata that \<open>Reflect.getOwnMetadata\<close> finds on its
  constructor under each of the five keys; \<open>None\<close> is \<open>undefined\<close>.  A \<open>target\<close> is known by
  the name of the class.\<close>

record Controller =
  controller :: "ControllerMetadata option"
  controllerMethod :: "ControllerMethodMetadata list option"
  controllerParameter :: "(string \<times> ParameterMetadata list) list option"
  authorizeAll :: "AuthorizeAllMetadata option"
  authorize :: "(string \<times> AuthorizeMetadata) list option"

text \<open>The container: the controllers that \<open>getAll(TYPE.Controller)\<close> returns, and the
  bindings that \<open>isBound\<close> and \<open>get\<close> consult for a middleware reference.\<close>

record Container =
  controllers :: "Controller list"
  bindings :: "(Middleware \<times> MiddlewareInstance) list"

record Route =
  verb :: string
  routePath :: string
  handlers :: "KoaRequestHandler list"

text \<open>The router: its prefix, the routes registered so far, in order, and the names of the
  verb methods it offers.\<close>

record Router =
  prefix :: "string option"
  stack :: "Route list"
  methods :: "string list"

record RoutingConfig =
  rootPath :: string

record Server =
  router :: Router
  container :: Container
  configFn :: "KoaRequestHandler list"
  errorConfigFn :: "KoaRequestHandler list"
  routingConfig :: RoutingConfig
  AuthProvider :: "(RouterContext \<Rightarrow> error + Principal option) option"

text \<open>The collaborators at request time: method calls into library objects, the handler
  functions of the application, the \<open>handler\<close> method of each \<open>BaseMiddleware\<close> instance,
  the call \<open>container.getNamed(TYPE.Controller, name)[key](...args)\<close> of a controller
  method, and the routes of a router that match the request.\<close>

record runtime =
  call :: method_call
  applicationHandler :: "nat \<Rightarrow> handler_fn"
  middlewareHandler :: "nat \<Rightarrow> handler_fn"
  invokeController :: "string \<Rightarrow> string \<Rightarrow> jsval option list \<Rightarrow> handler_fn"
  matchRoutes :: "Router \<Rightarrow> RouterContext \<Rightarrow> Route list"

subsection \<open>Authorization handler\<close>

text \<open>The loop over the required roles: every role is asked, a role the principal is
  not in clears the flag.\<close>

fun checkRoles :: "Principal \<Rightarrow> string list \<Rightarrow> bool \<Rightarrow> error + bool" where
  "checkRoles p [] isAuthorized = Inr isAuthorized"
| "checkRoles p (requiredRole # rest) isAuthorized =
     andThen (isInRole p requiredRole)
       (\<lambda>inRole. checkRoles p rest (if \<not> inRole then False else isAuthorized))"

text \<open>The body of the closure returned by \<open>authorizationHandlerFactory\<close>; the pair is
  the two flags \<open>isAuthenticated\<close> and \<open>isAuthorized\<close> of the source after the checks.\<close>

definition authorizationHandler :: "string list \<Rightarrow> handler_fn" where
  "authorizationHandler roles ctx nxt =
     andThen
       (case principal ctx of
          None \<Rightarrow> Inr (False, False)
        | Some p \<Rightarrow>
            andThen (isAuthenticated p)
              (\<lambda>authenticated.
                 if authenticated
                 then andThen (checkRoles p roles True) (\<lambda>authorized. Inr (True, authorized))
                 else Inr (False, False)))
       (\<lambda>(authenticated, authorized).
          if \<not> authenticated then Inl (HttpError 401)
          else if \<not> authorized then Inl (HttpError 403)
          else nxt ctx)"

definition authorizationHandlerFactory :: "string list \<Rightarrow> KoaRequestHandler" where
  "authorizationHandlerFactory roles = AuthorizationHandler roles"

subsection \<open>Dispatcher\<close>

definition isPromise :: "jsval \<Rightarrow> bool" where
  "isPromise v = (case v of JPromise p \<Rightarrow> True | _ \<Rightarrow> False)"

definition headerSent :: "RouterContext \<Rightarrow> bool" where
  "headerSent ctx = (case map_of (props ctx) ''headerSent'' of Some v \<Rightarrow> truthy v | None \<Rightarrow> False)"

text \<open>The body of the closure returned by \<open>handlerFactory\<close>.  The extractor is given the
  context as the object it is at that moment and the continuation as a value; the
  controller method runs on the context and may change it, and \<open>ctx.headerSent\<close> is read
  after it returned.\<close>

definition controllerHandler :: "runtime \<Rightarrow> string \<Rightarrow> string \<Rightarrow> ParameterMetadata list \<Rightarrow> handler_fn" where
  "controllerHandler rt controllerName methodKey parameterMetadata ctx nxt =
     andThen (extractParameters (call rt) (JObj (props ctx)) JNext parameterMetadata)
       (\<lambda>args. andThen (invokeController rt controllerName methodKey args ctx nxt)
          (\<lambda>(result, ctx').
             if truthy result \<and> isPromise result then Inr (result, ctx')
             else if truthy result \<and> \<not> headerSent ctx'
             then Inr (JUndefined, ctx'\<lparr>props := setProp (props ctx') ''body'' result\<rparr>)
             else Inr (JUndefined, ctx')))"

definition handlerFactory :: "string \<Rightarrow> string \<Rightarrow> ParameterMetadata list \<Rightarrow> KoaRequestHandler" where
  "handlerFactory controllerName methodKey parameterMetadata =
     ControllerHandler controllerName methodKey parameterMetadata"

subsection \<open>Middleware resolution and route registration\<close>

definition resolveMiddleware :: "Container \<Rightarrow> Middleware list \<Rightarrow> KoaRequestHandler list" where
  "resolveMiddleware c items =
     map (\<lambda>middlewareItem.
            case map_of (bindings c) middlewareItem of
              Some middlewareInstance \<Rightarrow>
                (case middlewareInstance of
                   BaseMiddlewareInstance m \<Rightarrow> BaseMiddlewareWrapper m
                 | HandlerInstance h \<Rightarrow> h)
            | None \<Rightarrow>
                (case middlewareItem of
                   Handler h \<Rightarrow> h
                 | ServiceIdentifier s \<Rightarrow> NotAFunction s))
         items"

text \<open>\<open>router[verb](path, ...handlers)\<close>: a name that is no method of the router cannot be
  called.\<close>

definition register :: "Router \<Rightarrow> string \<Rightarrow> string \<Rightarrow> KoaRequestHandler list \<Rightarrow> error + Router" where
  "register r v p hs =
     (if v \<in> set (methods r)
      then Inr (r\<lparr>stack := stack r @ [\<lparr>verb = v, routePath = p, handlers = hs\<rparr>]\<rparr>)
      else Inl TypeError)"

text \<open>\<open>forEach\<close> over a list, threading the router; a throw ends it.\<close>

fun forEachM :: "('s \<Rightarrow> 'a \<Rightarrow> error + 's) \<Rightarrow> 'a list \<Rightarrow> 's \<Rightarrow> error + 's" where
  "forEachM f [] s = Inr s"
| "forEachM f (x # xs) s = andThen (f s x) (forEachM f xs)"

text \<open>The body of \<open>methodMetadata.forEach\<close>.\<close>

definition registerMethod ::
  "Container \<Rightarrow> ControllerMetadata \<Rightarrow> (string \<times> ParameterMetadata list) list option
   \<Rightarrow> AuthorizeAllMetadata option \<Rightarrow> (string \<times> AuthorizeMetadata) list option
   \<Rightarrow> KoaRequestHandler list \<Rightarrow> Router \<Rightarrow> ControllerMethodMetadata \<Rightarrow> error + Router" where
  "registerMethod c controllerMetadata parameterMetadata authorizeAllMetadata authorizeMetadata
       controllerMiddleware r metadata =
     (let paramList =
            (case parameterMetadata of
               Some pm \<Rightarrow> (case map_of pm (key metadata) of Some l \<Rightarrow> l | None \<Rightarrow> [])
             | None \<Rightarrow> []);
          authorizationHandler = [];
          authorizationHandler =
            (case authorizeAllMetadata of
               Some a \<Rightarrow> authorizationHandler @ [authorizationHandlerFactory (requiredRoles a)]
             | None \<Rightarrow> authorizationHandler);
          authorizationHandler =
            (case authorizeMetadata of
               Some am \<Rightarrow>
                 (case map_of am (key metadata) of
                    Some authorizedMetadataForMethod \<Rightarrow>
                      authorizationHandler
                        @ [authorizationHandlerFactory (requiredRoles authorizedMetadataForMethod)]
                  | None \<Rightarrow> authorizationHandler)
             | None \<Rightarrow> authorizationHandler);
          handler = handlerFactory (target controllerMetadata) (key metadata) paramList;
          routeMiddleware = resolveMiddleware c (middleware metadata)
      in register r (method' metadata)
           (pathJoin [JStr (path controllerMetadata), JStr (path metadata)])
           (controllerMiddleware @ routeMiddleware @ authorizationHandler @ [handler]))"

text \<open>The body of \<open>controllers.forEach\<close>.\<close>

definition registerController :: "Container \<Rightarrow> Router \<Rightarrow> Controller \<Rightarrow> error + Router" where
  "registerController c r ctrl =
     (case (controller ctrl, controllerMethod ctrl) of
        (Some controllerMetadata, Some methodMetadata) \<Rightarrow>
          (let controllerMiddleware = resolveMiddleware c (middleware controllerMetadata)
           in forEachM
                (registerMethod c controllerMetadata (controllerParameter ctrl) (authorizeAll ctrl)
                   (authorize ctrl) controllerMiddleware)
                methodMetadata r)
      | _ \<Rightarrow> Inr r)"

text \<open>\<open>registerControllers\<close>; the constant \<open>DEFAULT_ROUTING_ROOT_PATH\<close> of \<open>constants.ts\<close>
  is not among the sources and is a parameter.  The result is the router whose
  \<open>routes()\<close> goes onto the application.\<close>

definition registerControllers :: "string \<Rightarrow> Server \<Rightarrow> error + Router" where
  "registerControllers DEFAULT_ROUTING_ROOT_PATH server =
     (let r = (if rootPath (routingConfig server) \<noteq> DEFAULT_ROUTING_ROOT_PATH
               then (router server)\<lparr>prefix := Some (rootPath (routingConfig server))\<rparr>
               else router server)
      in forEachM (registerController (container server)) (controllers (container server)) r)"

subsection \<open>The specification's wording of a route's chain\<close>

text \<open>The authorization handlers of a method: the handler of the class-wide rule, then the
  handler of the rule of the method, each if there is one.\<close>

definition authorizationChain_spec :: "Controller \<Rightarrow> string \<Rightarrow> KoaRequestHandler list" where
  "authorizationChain_spec ctrl k =
     (case authorizeAll ctrl of None \<Rightarrow> [] | Some a \<Rightarrow> [AuthorizationHandler (requiredRoles a)])
     @ (case authorize ctrl of
          None \<Rightarrow> []
        | Some am \<Rightarrow>
            (case map_of am k of None \<Rightarrow> [] | Some a \<Rightarrow> [AuthorizationHandler (requiredRoles a)]))"

text \<open>The parameter bindings of a method, none when nothing is recorded.\<close>

definition bindings_spec :: "Controller \<Rightarrow> string \<Rightarrow> ParameterMetadata list" where
  "bindings_spec ctrl k =
     (case controllerParameter ctrl of
        None \<Rightarrow> []
      | Some pm \<Rightarrow> (case map_of pm k of None \<Rightarrow> [] | Some l \<Rightarrow> l))"

text \<open>The route of one method: controller middleware, method middleware, authorization
  handlers, dispatcher, under the verb and the joined path.\<close>

definition route_spec :: "Container \<Rightarrow> Controller \<Rightarrow> ControllerMetadata \<Rightarrow> ControllerMethodMetadata \<Rightarrow> Route" where
  "route_spec c ctrl cm m =
     \<lparr>verb = method' m,
      routePath = pathJoin [JStr (path cm), JStr (path m)],
      handlers = resolveMiddleware c (middleware cm) @ resolveMiddleware c (middleware m)
                 @ authorizationChain_spec ctrl (key m)
                 @ [ControllerHandler (target cm) (key m) (bindings_spec ctrl (key m))]\<rparr>"

definition routes_spec :: "Container \<Rightarrow> Controller \<Rightarrow> Route list" where
  "routes_spec c ctrl =
     (case (controller ctrl, controllerMethod ctrl) of
        (Some cm, Some ms) \<Rightarrow> map (route_spec c ctrl cm) ms
      | _ \<Rightarrow> [])"

subsection \<open>Request pipeline\<close>

definition getCurrentPrincipal :: "Server \<Rightarrow> RouterContext \<Rightarrow> error + Principal option" where
  "getCurrentPrincipal server ctx =
     (case AuthProvider server of
        Some getPrincipal \<Rightarrow> getPrincipal ctx
      | None \<Rightarrow>
          Inr (Some \<lparr>details = JNull,
                     isAuthenticated = Inr False,
                     isInRole = (\<lambda>role. Inr False),
                     isResourceOwner = (\<lambda>resourceId. Inr False)\<rparr>))"

text \<open>The first middleware that \<open>build\<close> puts on the application.\<close>

definition principalMiddleware :: "Server \<Rightarrow> handler_fn" where
  "principalMiddleware server ctx nxt =
     andThen (getCurrentPrincipal server ctx)
       (\<lambda>p. andThen (nxt (ctx\<lparr>principal := p\<rparr>)) (\<lambda>(v, ctx'). Inr (JUndefined, ctx')))"

text \<open>What \<open>app.use\<close> received, in order.\<close>

datatype AppMiddleware = PrincipalMiddleware | Use KoaRequestHandler | RouterRoutes Router

text \<open>\<open>build\<close>: the principal first, the middleware of the configuration function, the
  routes, the middleware of the error configuration function.\<close>

definition build :: "string \<Rightarrow> Server \<Rightarrow> error + AppMiddleware list" where
  "build DEFAULT_ROUTING_ROOT_PATH server =
     (let app = [PrincipalMiddleware];
          app = app @ map Use (configFn server)
      in andThen (registerControllers DEFAULT_ROUTING_ROOT_PATH server)
           (\<lambda>r. let app = app @ [RouterRoutes r];
                    app = app @ map Use (errorConfigFn server)
                in Inr app))"

text \<open>Calling a handler of a chain.\<close>

fun runHandler :: "runtime \<Rightarrow> KoaRequestHandler \<Rightarrow> handler_fn" where
  "runHandler rt (HandlerFn f) ctx nxt = applicationHandler rt f ctx nxt"
| "runHandler rt (BaseMiddlewareWrapper m) ctx nxt = middlewareHandler rt m ctx nxt"
| "runHandler rt (AuthorizationHandler roles) ctx nxt = authorizationHandler roles ctx nxt"
| "runHandler rt (ControllerHandler controllerName methodKey parameterMetadata) ctx nxt =
     controllerHandler rt controllerName methodKey parameterMetadata ctx nxt"
| "runHandler rt (NotAFunction s) ctx nxt = Inl TypeError"

text \<open>The contract of the router and of the application (section 5 and 6 of the
  specification): the handlers of a chain run in order, each one is given the rest of the
  chain as its continuation, and a handler that does not call its continuation ends the
  chain.  The router runs the chains of the routes that match, then hands on.\<close>

fun compose :: "runtime \<Rightarrow> KoaRequestHandler list \<Rightarrow> handler_fn" where
  "compose rt [] ctx nxt = nxt ctx"
| "compose rt (h # hs) ctx nxt = runHandler rt h ctx (\<lambda>ctx'. compose rt hs ctx' nxt)"

fun runApp :: "runtime \<Rightarrow> Server \<Rightarrow> AppMiddleware list \<Rightarrow> handler_fn" where
  "runApp rt server [] ctx nxt = nxt ctx"
| "runApp rt server (PrincipalMiddleware # rest) ctx nxt =
     principalMiddleware server ctx (\<lambda>ctx'. runApp rt server rest ctx' nxt)"
| "runApp rt server (Use h # rest) ctx nxt =
     runHandler rt h ctx (\<lambda>ctx'. runApp rt server rest ctx' nxt)"
| "runApp rt server (RouterRoutes r # rest) ctx nxt =
     compose rt (concat (map handlers (matchRoutes rt r ctx))) ctx
       (\<lambda>ctx'. runApp rt server rest ctx' nxt)"

text \<open>A handler that hands the request on: it ends by calling its continuation and leaves
  the principal of the request as it was.\<close>

definition forwards :: "runtime \<Rightarrow> KoaRequestHandler \<Rightarrow> bool" where
  "forwards rt h =
     (\<forall>ctx nxt. \<exists>ctx'. principal ctx' = principal ctx \<and> runHandler rt h ctx nxt = nxt ctx')"

section \<open>Concrete requests\<close>

text \<open>A cookie jar whose \<open>get(name)\<close> reads the cookie of that name from the table kept
  under \<open>store\<close>, and gives \<open>undefined\<close> when there is none; no other method is known.\<close>

definition jarCall :: method_call where
  "jarCall receiver name args =
     (if name = ''get''
      then (case receiver of
              JObj ps \<Rightarrow>
                (case (map_of ps ''store'', args) of
                   (Some (JObj cookies), [JStr n]) \<Rightarrow>
                     Inr (case map_of cookies n of Some v \<Rightarrow> v | None \<Rightarrow> JUndefined)
                 | _ \<Rightarrow> Inl TypeError)
            | _ \<Rightarrow> Inl TypeError)
      else Inl TypeError)"

definition exampleBody :: "(string \<times> jsval) list" where
  "exampleBody = [(''name'', JStr ''''), (''qty'', JNum 2)]"

definition exampleHeaders :: "(string \<times> jsval) list" where
  "exampleHeaders = [(''host'', JStr ''localhost''), (''x-token'', JStr '''')]"

definition exampleRequest :: "(string \<times> jsval) list" where
  "exampleRequest =
     [(''url'', JStr ''/items''), (''fresh'', JBool False),
      (''body'', JObj exampleBody), (''headers'', JObj exampleHeaders)]"

definition exampleResponse :: "(string \<times> jsval) list" where
  "exampleResponse = [(''status'', JNum 0), (''message'', JStr ''OK'')]"

definition exampleQuery :: "(string \<times> jsval) list" where
  "exampleQuery = [(''test'', JStr ''testquery''), (''blank'', JStr '''')]"

definition exampleJar :: "(string \<times> jsval) list" where
  "exampleJar =
     [(''secure'', JBool False), (''sid'', JStr ''''), (''store'', JObj [(''sid'', JStr ''abc'')])]"

definition exampleProps :: "(string \<times> jsval) list" where
  "exampleProps =
     [(''request'', JObj exampleRequest), (''response'', JObj exampleResponse),
      (''params'', JObj [(''id'', JStr ''5'')]), (''query'', JObj exampleQuery),
      (''cookies'', JObj exampleJar), (''respond'', JBool False), (''headerSent'', JBool False)]"

text \<open>Bindings whose names are missing from their sources.\<close>

definition absentBindings :: "ParameterMetadata list" where
  "absentBindings =
     [\<lparr>parameterName = ''empty'', index = 0, type = QUERY\<rparr>,
      \<lparr>parameterName = ''default'', index = 1, type = REQUEST\<rparr>,
      \<lparr>parameterName = ''default'', index = 2, type = RESPONSE\<rparr>,
      \<lparr>parameterName = ''default'', index = 3, type = BODY\<rparr>,
      \<lparr>parameterName = ''accept'', index = 4, type = HEADERS\<rparr>,
      \<lparr>parameterName = ''theme'', index = 5, type = COOKIES\<rparr>,
      \<lparr>parameterName = ''default'', index = 6, type = CTX\<rparr>]"

text \<open>Bindings whose names are present in their sources, with a falsy value.\<close>

definition falsyBindings :: "ParameterMetadata list" where
  "falsyBindings =
     [\<lparr>parameterName = ''blank'', index = 0, type = QUERY\<rparr>,
      \<lparr>parameterName = ''fresh'', index = 1, type = REQUEST\<rparr>,
      \<lparr>parameterName = ''status'', index = 2, type = RESPONSE\<rparr>,
      \<lparr>parameterName = ''name'', index = 3, type = BODY\<rparr>,
      \<lparr>parameterName = ''x-token'', index = 4, type = HEADERS\<rparr>,
      \<lparr>parameterName = ''sid'', index = 5, type = COOKIES\<rparr>,
      \<lparr>parameterName = ''respond'', index = 6, type = CTX\<rparr>]"

text \<open>Bindings of the context and of the continuation themselves, declared in reverse.\<close>

definition rawBindings :: "ParameterMetadata list" where
  "rawBindings =
     [\<lparr>parameterName = ''default'', index = 2, type = NEXT\<rparr>,
      \<lparr>parameterName = ''default'', index = 0, type = CTX\<rparr>]"

text \<open>The arguments extracted on the example request for the absent names and for the
  falsy fields; they differ in the cookie slot only, where the jar is asked for another
  cookie.\<close>

definition exampleArgs :: "jsval option list" where
  "exampleArgs =
     [Some JUndefined, Some (JObj exampleRequest), Some (JObj exampleResponse),
      Some (JObj exampleBody), Some (JObj exampleHeaders), Some JUndefined,
      Some (JObj exampleProps), Some (JObj exampleProps), Some JNext]"

definition falsyArgs :: "jsval option list" where
  "falsyArgs =
     [Some JUndefined, Some (JObj exampleRequest), Some (JObj exampleResponse),
      Some (JObj exampleBody), Some (JObj exampleHeaders), Some (JStr ''abc''),
      Some (JObj exampleProps), Some (JObj exampleProps), Some JNext]"

text \<open>A run that ends the request with nothing more to do.\<close>

definition finished :: continuation where
  "finished ctx = Inr (JUndefined, ctx)"

text \<open>A principal that answers from a flag and a list of the roles it is in.\<close>

definition examplePrincipal :: "bool \<Rightarrow> string list \<Rightarrow> Principal" where
  "examplePrincipal authenticated roles =
     \<lparr>details = JNull,
      isAuthenticated = Inr authenticated,
      isInRole = (\<lambda>role. Inr (role \<in> set roles)),
      isResourceOwner = (\<lambda>resourceId. Inr False)\<rparr>"

definition exampleContext :: "Principal option \<Rightarrow> RouterContext" where
  "exampleContext p = \<lparr>props = exampleProps, principal = p\<rparr>"

text \<open>The same request after the headers went out.\<close>

definition sentContext :: RouterContext where
  "sentContext = \<lparr>props = setProp exampleProps ''headerSent'' (JBool True), principal = None\<rparr>"

text \<open>An application: handler \<open>0\<close> hands the request on, every other handler answers
  by itself and does not call its continuation; the middleware objects hand on; the
  controller methods \<open>count\<close>, \<open>hello\<close> and \<open>later\<close> return \<open>0\<close>, a string and a promise;
  the router matches the first route it has.\<close>

definition exampleRuntime :: runtime where
  "exampleRuntime =
     \<lparr>call = jarCall,
      applicationHandler =
        (\<lambda>n ctx nxt.
           if n = 0 then nxt ctx
           else Inr (JUndefined, ctx\<lparr>props := setProp (props ctx) ''body'' (JStr ''halted'')\<rparr>)),
      middlewareHandler = (\<lambda>n ctx nxt. nxt ctx),
      invokeController =
        (\<lambda>controllerName methodKey args ctx nxt.
           if methodKey = ''count'' then Inr (JNum 0, ctx)
           else if methodKey = ''hello'' then Inr (JStr ''Hello'', ctx)
           else if methodKey = ''later'' then Inr (JPromise 1, ctx)
           else Inr (JUndefined, ctx)),
      matchRoutes = (\<lambda>r ctx. take 1 (stack r))\<rparr>"

text \<open>A server without auth provider.  Its one controller has a class-wide rule and a
  rule on its method, controller middleware given inline and by a bound identifier, and
  method middleware.\<close>

definition exampleRouter :: Router where
  "exampleRouter =
     \<lparr>prefix = None, stack = [],
      methods = [''all'', ''get'', ''post'', ''put'', ''patch'', ''head'', ''delete'']\<rparr>"

definition itemsMetadata :: ControllerMetadata where
  "itemsMetadata =
     \<lparr>path = ''/api/'',
      middleware = [Handler (HandlerFn 0), ServiceIdentifier ''TestMiddleware''],
      target = ''ItemsController''\<rparr>"

definition helloMetadata :: ControllerMethodMetadata where
  "helloMetadata =
     \<lparr>path = ''/items/'', middleware = [Handler (HandlerFn 0)], target = ''ItemsController'',
      method' = ''get'', key = ''hello''\<rparr>"

definition itemsController :: Controller where
  "itemsController =
     \<lparr>controller = Some itemsMetadata,
      controllerMethod = Some [helloMetadata],
      controllerParameter = Some [(''hello'', rawBindings)],
      authorizeAll = Some \<lparr>requiredRoles = [''role a''], target = ''ItemsController''\<rparr>,
      authorize =
        Some [(''hello'', \<lparr>requiredRoles = [''role b''], target = ''ItemsController'',
                           AuthorizeMetadata.key = ''hello''\<rparr>)]\<rparr>"

definition exampleContainer :: Container where
  "exampleContainer =
     \<lparr>controllers = [itemsController],
      bindings = [(ServiceIdentifier ''TestMiddleware'', BaseMiddlewareInstance 7)]\<rparr>"

definition exampleServer :: Server where
  "exampleServer =
     \<lparr>router = exampleRouter, container = exampleContainer,
      configFn = [HandlerFn 0], errorConfigFn = [],
      routingConfig = \<lparr>rootPath = ''/''\<rparr>, AuthProvider = None\<rparr>"

definition helloRoute :: Route where
  "helloRoute =
     \<lparr>verb = ''get'', routePath = ''/api/items'',
      handlers = [HandlerFn 0, BaseMiddlewareWrapper 7, HandlerFn 0,
                  AuthorizationHandler [''role a''], AuthorizationHandler [''role b''],
                  ControllerHandler ''ItemsController'' ''hello'' rawBindings]\<rparr>"

text \<open>The same server, with a controller middleware that answers by itself.\<close>

definition haltingMetadata :: ControllerMetadata where
  "haltingMetadata =
     \<lparr>path = ''/api/'', middleware = [Handler (HandlerFn 1)], target = ''ItemsController''\<rparr>"

definition haltingController :: Controller where
  "haltingController = itemsController\<lparr>controller := Some haltingMetadata\<rparr>"

definition haltingServer :: Server where
  "haltingServer =
     exampleServer\<lparr>container := \<lparr>controllers = [haltingController], bindings = []\<rparr>\<rparr>"

definition haltingRoute :: Route where
  "haltingRoute =
     \<lparr>verb = ''get'', routePath = ''/api/items'',
      handlers = [HandlerFn 1, HandlerFn 0,
                  AuthorizationHandler [''role a''], AuthorizationHandler [''role b''],
                  ControllerHandler ''ItemsController'' ''hello'' rawBindings]\<rparr>"

text \<open>The principal that is made up when there is no auth provider, and the context the
  halting middleware leaves behind.\<close>

definition synthesizedPrincipal :: Principal where
  "synthesizedPrincipal =
     \<lparr>details = JNull,
      isAuthenticated = Inr False,
      isInRole = (\<lambda>role. Inr False),
      isResourceOwner = (\<lambda>resourceId. Inr False)\<rparr>"

definition haltedContext :: RouterContext where
  "haltedContext =
     \<lparr>props = setProp exampleProps ''body'' (JStr ''halted''),
      principal = Some synthesizedPrincipal\<rparr>"

section \<open>Properties of path join\<close>

lemma collapse_slashes_dropWhile:
  "isSlash c \<Longrightarrow> collapseSlashes (c # cs) = c # collapseSlashes (dropWhile isSlash cs)"
proof (induction cs arbitrary: c)
  case Nil then show ?case by simp
next
  case (Cons d ds)
  show ?case
  proof (cases "isSlash d")
    case True
    with Cons.prems Cons.IH [of d] show ?thesis by (simp add: isSlash_def)
  next
    case False
    with Cons.prems show ?thesis by simp
  qed
qed

lemma replaceSlashRuns_collapse: "replaceSlashRuns s = collapseSlashes s"
proof (induction s rule: replaceSlashRuns.induct)
  case 1 show ?case by simp
next
  case (2 c cs)
  show ?case
  proof (cases "isSlash c \<and> cs \<noteq> [] \<and> isSlash (hd cs)")
    case True
    then have "replaceSlashRuns (c # cs) = CHR ''/'' # collapseSlashes (dropWhile isSlash cs)"
      using 2 by simp
    also have "\<dots> = collapseSlashes (c # cs)"
      using True collapse_slashes_dropWhile [of c cs] by (simp add: isSlash_def)
    finally show ?thesis .
  next
    case False
    then have "replaceSlashRuns (c # cs) = c # collapseSlashes cs" using 2(2) by auto
    also have "\<dots> = collapseSlashes (c # cs)"
      using False by (cases cs) auto
    finally show ?thesis .
  qed
qed

lemma stripTrailingSlashes_drop: "stripTrailingSlashes s = dropTrailingSlashes s"
  unfolding dropTrailingSlashes_def
proof (induction s)
  case Nil show ?case by simp
next
  case (Cons c cs)
  show ?case
  proof (cases "list_all isSlash cs")
    case True
    then have "dropWhile isSlash (rev cs) = []" by (simp add: list_all_iff)
    then show ?thesis using True Cons by (simp add: dropWhile_append list_all_iff)
  next
    case False
    then have "dropWhile isSlash (rev cs) \<noteq> []" by (auto simp: list_all_iff)
    then show ?thesis using False Cons by (simp add: dropWhile_append)
  qed
qed



lemma filter_collapse: "filter (\<lambda>c. \<not> isSlash c) (collapseSlashes x) = filter (\<lambda>c. \<not> isSlash c) x"
  by (induction x rule: collapseSlashes.induct) auto

lemma collapse_Cons_nonslash: "\<not> isSlash c \<Longrightarrow> collapseSlashes (c # x) = c # collapseSlashes x"
  by (cases x) auto

lemma collapse_Nil_iff: "collapseSlashes x = [] \<longleftrightarrow> x = []"
  by (induction x rule: collapseSlashes.induct) auto

lemma hd_collapse: "hd (collapseSlashes x) = hd x"
  by (induction x rule: collapseSlashes.induct) (auto simp: isSlash_def)

lemma collapse_Cons_hd: "\<exists>r. collapseSlashes (c # x) = c # r"
  by (induction x arbitrary: c) (auto simp: isSlash_def)

lemma collapse_drop_slash:
  "isSlash a \<Longrightarrow> isSlash b \<Longrightarrow> collapseSlashes (u @ a # b # r) = collapseSlashes (u @ b # r)"
  by (induction u rule: collapseSlashes.induct) (auto simp: isSlash_def)

lemma collapse_left: "collapseSlashes (collapseSlashes x @ y) = collapseSlashes (x @ y)"
proof (induction x rule: collapseSlashes.induct)
  case 1 show ?case by simp
next
  case (2 c) show ?case by simp
next
  case (3 a b cs)
  obtain r where r: "collapseSlashes (b # cs) = b # r" using collapse_Cons_hd by blast
  show ?case
  proof (cases "isSlash a \<and> isSlash b")
    case True
    then show ?thesis using 3 by simp
  next
    case False
    then have "collapseSlashes (collapseSlashes (a # b # cs) @ y) = collapseSlashes (a # b # r @ y)"
      using r by auto
    also have "\<dots> = a # collapseSlashes (b # r @ y)" using False by auto
    also have "\<dots> = a # collapseSlashes (b # cs @ y)" using 3(2) False r by auto
    also have "\<dots> = collapseSlashes ((a # b # cs) @ y)" using False by auto
    finally show ?thesis .
  qed
qed

lemma collapse_idem: "collapseSlashes (collapseSlashes x) = collapseSlashes x"
  using collapse_left [of x "[]"] by simp

lemma collapse_right: "collapseSlashes (x @ collapseSlashes y) = collapseSlashes (x @ y)"
proof (induction y arbitrary: x rule: collapseSlashes.induct)
  case 1 show ?case by simp
next
  case (2 c) show ?case by simp
next
  case (3 a b cs)
  show ?case
  proof (cases "isSlash a \<and> isSlash b")
    case True
    then show ?thesis using 3(1) [of x] collapse_drop_slash [of a b x cs] by simp
  next
    case False
    then show ?thesis using 3(2) [of "x @ [a]"] by auto
  qed
qed


lemma strip_append: "dropTrailingSlashes (x @ y) = (if list_all isSlash y then dropTrailingSlashes x else x @ dropTrailingSlashes y)"
  by (auto simp: dropTrailingSlashes_def dropWhile_append list_all_iff)

lemma strip_decomp: "\<exists>s. list_all isSlash s \<and> w = dropTrailingSlashes w @ s"
proof -
  have "rev w = takeWhile isSlash (rev w) @ dropWhile isSlash (rev w)" by simp
  then have "w = rev (dropWhile isSlash (rev w)) @ rev (takeWhile isSlash (rev w))"
    by (metis rev_append rev_rev_ident)
  moreover have "list_all isSlash (rev (takeWhile isSlash (rev w)))"
    by (simp add: list_all_iff) (metis set_takeWhileD)
  ultimately show ?thesis unfolding dropTrailingSlashes_def by blast
qed

lemma strip_last: "dropTrailingSlashes w \<noteq> [] \<Longrightarrow> \<not> isSlash (last (dropTrailingSlashes w))"
  unfolding dropTrailingSlashes_def
  by (metis hd_dropWhile last_rev rev_is_Nil_conv)

lemma strip_idem: "dropTrailingSlashes (dropTrailingSlashes w) = dropTrailingSlashes w"
  by (metis strip_append strip_decomp)

lemma filter_all_slash: "list_all isSlash s \<Longrightarrow> filter (\<lambda>c. \<not> isSlash c) s = []"
  by (induction s) auto

lemma filter_strip: "filter (\<lambda>c. \<not> isSlash c) (dropTrailingSlashes x) = filter (\<lambda>c. \<not> isSlash c) x"
proof -
  obtain s where s: "list_all isSlash s" "x = dropTrailingSlashes x @ s" using strip_decomp by blast
  have "filter (\<lambda>c. \<not> isSlash c) x = filter (\<lambda>c. \<not> isSlash c) (dropTrailingSlashes x @ s)"
    using s(2) by simp
  then show ?thesis using filter_all_slash [OF s(1)] by simp
qed

lemma collapse_all_slash: "list_all isSlash s \<Longrightarrow> list_all isSlash (collapseSlashes s)"
  by (induction s rule: collapseSlashes.induct) auto

lemma last_collapse: "x \<noteq> [] \<Longrightarrow> last (collapseSlashes x) = last x"
  by (induction x rule: collapseSlashes.induct) (auto simp: isSlash_def collapse_Nil_iff)

lemma collapse_append_nonslash: "w \<noteq> [] \<Longrightarrow> \<not> isSlash (last w) \<Longrightarrow> collapseSlashes (w @ s) = collapseSlashes w @ collapseSlashes s"
  by (induction w rule: collapseSlashes.induct) (auto simp: collapse_Cons_nonslash)


lemma strip_all_slash: "list_all isSlash s \<Longrightarrow> dropTrailingSlashes s = []"
  by (simp add: dropTrailingSlashes_def list_all_iff)

lemma strip_id: "x \<noteq> [] \<Longrightarrow> \<not> isSlash (last x) \<Longrightarrow> dropTrailingSlashes x = x"
  by (cases x rule: rev_cases) (auto simp: dropTrailingSlashes_def)

lemma strip_collapse_commute: "dropTrailingSlashes (collapseSlashes x) = collapseSlashes (dropTrailingSlashes x)"
proof -
  obtain s where s: "list_all isSlash s" "x = dropTrailingSlashes x @ s" using strip_decomp by blast
  let ?w = "dropTrailingSlashes x"
  show ?thesis
  proof (cases "?w = []")
    case True
    then have "list_all isSlash x" using s by simp
    then show ?thesis using True strip_all_slash collapse_all_slash by simp
  next
    case False
    then have nl: "\<not> isSlash (last ?w)" by (rule strip_last)
    have "collapseSlashes x = collapseSlashes ?w @ collapseSlashes s"
      using collapse_append_nonslash [OF False nl, of s] s(2) by simp
    then have "dropTrailingSlashes (collapseSlashes x) = dropTrailingSlashes (collapseSlashes ?w)"
      using collapse_all_slash [OF s(1)] by (simp add: strip_append)
    moreover have "dropTrailingSlashes (collapseSlashes ?w) = collapseSlashes ?w"
    proof -
      have "collapseSlashes ?w \<noteq> []" using False by (simp add: collapse_Nil_iff)
      moreover have "\<not> isSlash (last (collapseSlashes ?w))" using nl False by (simp add: last_collapse)
      ultimately show ?thesis by (rule strip_id)
    qed
    ultimately show ?thesis by simp
  qed
qed

lemma hasNonSlash_collapse: "hasNonSlash (collapseSlashes s) = hasNonSlash s"
  by (simp add: hasNonSlash_def filter_collapse)

lemma hasNonSlash_strip: "hasNonSlash (dropTrailingSlashes s) = hasNonSlash s"
  by (simp add: hasNonSlash_def filter_strip)

lemma hasNonSlash_append: "hasNonSlash (x @ y) = (hasNonSlash x \<or> hasNonSlash y)"
  by (simp add: hasNonSlash_def)

lemma norm_collapse_left: "normalizeJoined (collapseSlashes x @ z) = normalizeJoined (x @ z)"
  by (simp add: normalizeJoined_def collapse_left hasNonSlash_collapse hasNonSlash_append)

lemma norm_collapse_right: "normalizeJoined (z @ collapseSlashes y) = normalizeJoined (z @ y)"
  by (simp add: normalizeJoined_def collapse_right hasNonSlash_collapse hasNonSlash_append)

lemma collapse_drop_slashes:
  "list_all isSlash s \<Longrightarrow> isSlash b \<Longrightarrow> collapseSlashes (u @ s @ b # r) = collapseSlashes (u @ b # r)"
proof (induction s arbitrary: u)
  case Nil show ?case by simp
next
  case (Cons a s)
  have "collapseSlashes (u @ (a # s) @ b # r) = collapseSlashes ((u @ [a]) @ s @ b # r)" by simp
  also have "\<dots> = collapseSlashes ((u @ [a]) @ b # r)" using Cons.IH [of "u @ [a]"] Cons.prems by simp
  also have "\<dots> = collapseSlashes (u @ b # r)" using collapse_drop_slash [of a b u r] Cons.prems by simp
  finally show ?case .
qed

lemma norm_strip_left: "isSlash b \<Longrightarrow> normalizeJoined (dropTrailingSlashes w @ b # c) = normalizeJoined (w @ b # c)"
proof -
  assume b: "isSlash b"
  obtain s where s: "list_all isSlash s" "w = dropTrailingSlashes w @ s" using strip_decomp by blast
  have "collapseSlashes (w @ b # c) = collapseSlashes (dropTrailingSlashes w @ s @ b # c)"
    using s(2) by (metis append.assoc)
  also have "\<dots> = collapseSlashes (dropTrailingSlashes w @ b # c)"
    using collapse_drop_slashes [OF s(1) b] by simp
  finally have "collapseSlashes (w @ b # c) = collapseSlashes (dropTrailingSlashes w @ b # c)" .
  then show ?thesis
    by (simp add: normalizeJoined_def hasNonSlash_collapse hasNonSlash_append hasNonSlash_strip)
qed

lemma norm_strip_right: "hasNonSlash w \<Longrightarrow> normalizeJoined (z @ dropTrailingSlashes w) = normalizeJoined (z @ w)"
proof -
  assume w: "hasNonSlash w"
  obtain s where s: "list_all isSlash s" "w = dropTrailingSlashes w @ s" using strip_decomp by blast
  have "dropTrailingSlashes (z @ w) = dropTrailingSlashes ((z @ dropTrailingSlashes w) @ s)"
    using s(2) by simp
  also have "\<dots> = dropTrailingSlashes (z @ dropTrailingSlashes w)"
    using s(1) strip_append [of "z @ dropTrailingSlashes w" s] by simp
  finally have "dropTrailingSlashes (z @ w) = dropTrailingSlashes (z @ dropTrailingSlashes w)" .
  then show ?thesis using w
    by (simp add: normalizeJoined_def hasNonSlash_collapse hasNonSlash_append hasNonSlash_strip strip_collapse_commute)
qed

lemma norm_norm_left: "isSlash b \<Longrightarrow> normalizeJoined (normalizeJoined x @ b # c) = normalizeJoined (x @ b # c)"
proof -
  assume b: "isSlash b"
  show ?thesis
  proof (cases "hasNonSlash x")
    case True
    then have "normalizeJoined x = dropTrailingSlashes (collapseSlashes x)" by (simp add: normalizeJoined_def hasNonSlash_collapse)
    then show ?thesis using norm_strip_left [OF b, of "collapseSlashes x" c] norm_collapse_left [of x "b # c"] by simp
  next
    case False
    then have "normalizeJoined x = collapseSlashes x" by (simp add: normalizeJoined_def hasNonSlash_collapse)
    then show ?thesis using norm_collapse_left [of x "b # c"] by simp
  qed
qed

lemma norm_norm_right: "normalizeJoined (z @ normalizeJoined y) = normalizeJoined (z @ y)"
proof (cases "hasNonSlash y")
  case True
  then have "normalizeJoined y = dropTrailingSlashes (collapseSlashes y)" by (simp add: normalizeJoined_def hasNonSlash_collapse)
  moreover have "hasNonSlash (collapseSlashes y)" using True by (simp add: hasNonSlash_collapse)
  ultimately show ?thesis using norm_strip_right [of "collapseSlashes y" z] norm_collapse_right [of z y] by simp
next
  case False
  then have "normalizeJoined y = collapseSlashes y" by (simp add: normalizeJoined_def hasNonSlash_collapse)
  then show ?thesis using norm_collapse_right [of z y] by simp
qed

lemma norm_idem: "normalizeJoined (normalizeJoined x) = normalizeJoined x"
  using norm_norm_right [of "[]"] by simp


lemma collapse_all_slash_cases: "list_all isSlash s \<Longrightarrow> collapseSlashes s = [] \<or> collapseSlashes s = ''/''"
  by (induction s rule: collapseSlashes.induct) (auto simp: isSlash_def)

lemma hasNonSlash_iff: "hasNonSlash s \<longleftrightarrow> \<not> list_all isSlash s"
  by (induction s) (auto simp: hasNonSlash_def)

lemma normalize_path_norm: "normalize_path ss = normalizeJoined (join ss)"
  by (cases ss) (simp_all add: normalize_path_def normalizeJoined_def Let_def replaceSlashRuns_collapse
      stripTrailingSlashes_drop hasNonSlash_def)

lemma norm_spec: "normalizeJoined s = (let collapsed = collapseSlashes s
      in if collapsed \<noteq> [] \<and> list_all isSlash collapsed then ''/''
         else dropTrailingSlashes collapsed)"
proof (cases "hasNonSlash (collapseSlashes s)")
  case True
  then show ?thesis by (simp add: normalizeJoined_def Let_def hasNonSlash_iff)
next
  case False
  then have a: "list_all isSlash (collapseSlashes s)" by (simp add: hasNonSlash_iff)
  then have "collapseSlashes (collapseSlashes s) = [] \<or> collapseSlashes (collapseSlashes s) = ''/''"
    by (rule collapse_all_slash_cases)
  then have "collapseSlashes s = [] \<or> collapseSlashes s = ''/''" by (simp add: collapse_idem)
  then show ?thesis using False a by (auto simp: normalizeJoined_def Let_def dropTrailingSlashes_def)
qed

lemma string_parts: "concat (map (\<lambda>v. case v of JStr s \<Rightarrow> [s] | _ \<Rightarrow> []) (filter isString args)) = [s. JStr s \<leftarrow> args]"
  by (induction args) (auto simp: isString_def split: jsval.splits)

lemma pathJoin_norm: "pathJoin args = normalizeJoined (join [s. JStr s \<leftarrow> args])"
  unfolding pathJoin_def Let_def string_parts normalize_path_norm ..

text \<open>
  Claim C5.  Path join is a function of its argument list alone.  It drops the segments
  that are not strings, concatenates the others with a slash between them, collapses every
  run of two or more slashes into one and strips the trailing slashes, unless the result
  consists of slashes only, which becomes a single slash: the function of the source is
  the function \<open>pathJoin_spec\<close> written in these words.  In particular
  \<open>join("", "") = "/"\<close> and
  \<open>join("path", null, "to", undefined, "resource") = "path/to/resource"\<close>.
\<close>

theorem pathJoin_refines_spec:
  "pathJoin args = pathJoin_spec args
   \<and> pathJoin [JStr '''', JStr ''''] = ''/''
   \<and> pathJoin [JStr ''path'', JNull, JStr ''to'', JUndefined, JStr ''resource''] = ''path/to/resource''"
proof -
  have "pathJoin args = pathJoin_spec args"
    unfolding pathJoin_norm pathJoin_spec_def Let_def using norm_spec [of "join [s. JStr s \<leftarrow> args]"]
    by (simp add: Let_def)
  moreover have "pathJoin [JStr '''', JStr ''''] = ''/''"
    by (simp add: pathJoin_def normalize_path_def isString_def isSlash_def)
  moreover have "pathJoin [JStr ''path'', JNull, JStr ''to'', JUndefined, JStr ''resource''] = ''path/to/resource''"
    by (simp add: pathJoin_def normalize_path_def isString_def isSlash_def)
  ultimately show ?thesis by simp
qed

text \<open>
  Claim C6.  For all string segments \<open>a\<close>, \<open>b\<close>, \<open>c\<close>, path join is associative,
  \<open>join(join(a, b), c) = join(a, join(b, c))\<close>, and idempotent on its own output,
  \<open>join(join(a, b)) = join(a, b)\<close>.
\<close>

theorem pathJoin_assoc_idem:
  "pathJoin [JStr (pathJoin [JStr a, JStr b]), JStr c] = pathJoin [JStr a, JStr (pathJoin [JStr b, JStr c])]
   \<and> pathJoin [JStr (pathJoin [JStr a, JStr b])] = pathJoin [JStr a, JStr b]"
proof -
  have sl: "isSlash CHR ''/''" by (simp add: isSlash_def)
  have l: "pathJoin [JStr (pathJoin [JStr a, JStr b]), JStr c] = normalizeJoined (a @ CHR ''/'' # b @ CHR ''/'' # c)"
    using norm_norm_left [OF sl, of "a @ CHR ''/'' # b" c] by (simp add: pathJoin_norm)
  have r: "pathJoin [JStr a, JStr (pathJoin [JStr b, JStr c])] = normalizeJoined (a @ CHR ''/'' # b @ CHR ''/'' # c)"
    using norm_norm_right [of "a @ [CHR ''/'']" "b @ CHR ''/'' # c"] by (simp add: pathJoin_norm)
  have i: "pathJoin [JStr (pathJoin [JStr a, JStr b])] = pathJoin [JStr a, JStr b]"
    by (simp add: pathJoin_norm norm_idem)
  from l r i show ?thesis by simp
qed

section \<open>Properties of parameter extraction\<close>

lemma andThen_Inr [simp]: "andThen (Inr v) f = f v"
  by (simp add: andThen_def)

lemma andThen_Inl [simp]: "andThen (Inl e) f = Inl e"
  by (simp add: andThen_def)

lemma andThen_eq_Inr: "andThen r f = Inr y \<longleftrightarrow> (\<exists>v. r = Inr v \<and> f v = Inr y)"
  by (cases r) simp_all

lemma length_assignIndex: "length (assignIndex a i v) = max (length a) (Suc i)"
  by (auto simp: assignIndex_def)

lemma assignIndex_same: "assignIndex a i v ! i = Some v"
  by (auto simp: assignIndex_def nth_append)

lemma assignIndex_other: "j \<noteq> i \<Longrightarrow> j < length a \<Longrightarrow> assignIndex a i v ! j = a ! j"
  by (auto simp: assignIndex_def nth_append)

lemma Max_insert_max:
  "finite S \<Longrightarrow> Max (insert (max (a::nat) b) S) = Max (insert a (insert b S))"
  using Max_insert by fastforce

lemma fillArgs_length:
  "fillArgs mc ctx nxt ps a = Inr out \<Longrightarrow> length out = Max (insert (length a) ((\<lambda>p. Suc (index p)) ` set ps))"
proof (induction ps arbitrary: a)
  case Nil then show ?case by simp
next
  case (Cons p ps)
  from Cons.prems obtain v where v: "slotValue mc ctx nxt p = Inr v"
    and r: "fillArgs mc ctx nxt ps (assignIndex a (index p) v) = Inr out"
    by (auto simp: andThen_eq_Inr)
  have "length out = Max (insert (max (length a) (Suc (index p))) ((\<lambda>p. Suc (index p)) ` set ps))"
    using Cons.IH [OF r] by (simp add: length_assignIndex)
  also have "\<dots> = Max (insert (length a) ((\<lambda>p. Suc (index p)) ` set (p # ps)))"
    using Max_insert_max [of "(\<lambda>p. Suc (index p)) ` set ps" "length a" "Suc (index p)"] by simp
  finally show ?case .
qed

lemma fillArgs_keeps:
  "fillArgs mc ctx nxt ps a = Inr out \<Longrightarrow> i \<notin> index ` set ps \<Longrightarrow> i < length a
   \<Longrightarrow> out ! i = a ! i"
proof (induction ps arbitrary: a)
  case Nil then show ?case by simp
next
  case (Cons p ps)
  from Cons.prems(1) obtain v where v: "slotValue mc ctx nxt p = Inr v"
    and r: "fillArgs mc ctx nxt ps (assignIndex a (index p) v) = Inr out"
    by (auto simp: andThen_eq_Inr)
  have "out ! i = assignIndex a (index p) v ! i"
    using Cons.IH [OF r] Cons.prems(2,3) by (simp add: length_assignIndex)
  then show ?case using Cons.prems(2,3) by (simp add: assignIndex_other)
qed

lemma fillArgs_slot:
  "fillArgs mc ctx nxt ps a = Inr out \<Longrightarrow> item \<in> set ps \<Longrightarrow> distinct (map index ps)
   \<Longrightarrow> \<exists>v. slotValue mc ctx nxt item = Inr v \<and> out ! index item = Some v"
proof (induction ps arbitrary: a)
  case Nil then show ?case by simp
next
  case (Cons p ps)
  from Cons.prems(1) obtain v where v: "slotValue mc ctx nxt p = Inr v"
    and r: "fillArgs mc ctx nxt ps (assignIndex a (index p) v) = Inr out"
    by (auto simp: andThen_eq_Inr)
  show ?case
  proof (cases "item = p")
    case True
    have "index p \<notin> index ` set ps" using Cons.prems(3) by auto
    then have "out ! index p = assignIndex a (index p) v ! index p"
      using fillArgs_keeps [OF r] by (simp add: length_assignIndex)
    then show ?thesis using True v by (simp add: assignIndex_same)
  next
    case False
    then show ?thesis using Cons.IH [OF r] Cons.prems(2,3) by simp
  qed
qed


lemma extractParameters_Inr:
  "extractParameters mc ctx nxt ps = Inr args \<longleftrightarrow>
     (\<exists>slots. fillArgs mc ctx nxt ps [] = Inr slots \<and> args = slots @ [Some ctx, Some nxt])"
  by (cases ps) (auto simp: extractParameters_def andThen_eq_Inr)

lemma extractParameters_slot:
  assumes "extractParameters mc ctx nxt ps = Inr args" "item \<in> set ps" "distinct (map index ps)"
  shows "\<exists>v. slotValue mc ctx nxt item = Inr v \<and> args ! index item = Some v"
proof -
  from assms(1) obtain slots where s: "fillArgs mc ctx nxt ps [] = Inr slots"
    and a: "args = slots @ [Some ctx, Some nxt]"
    by (auto simp: extractParameters_Inr)
  from fillArgs_slot [OF s assms(2,3)] obtain v
    where v: "slotValue mc ctx nxt item = Inr v" "slots ! index item = Some v" by blast
  have "Suc (index item) \<le> length slots"
    using fillArgs_length [OF s] assms(2) by (simp add: Max_ge_iff)
  then show ?thesis using v a by (simp add: nth_append)
qed

text \<open>The fallback of a named read that gave a falsy value.\<close>

lemma getParam_source_falsy:
  "getProp src name = Inr v \<Longrightarrow> \<not> truthy v \<Longrightarrow> getParam mc src None name = Inr src"
  by (simp add: getParam_def checkQueryParam_def)

lemma getParam_field_falsy:
  "getProp src pt = Inr p \<Longrightarrow> truthy p \<Longrightarrow> getProp p name = Inr v \<Longrightarrow> \<not> truthy v
   \<Longrightarrow> getParam mc src (Some pt) name = checkQueryParam mc (Some pt) p name"
  by (simp add: getParam_def)

lemma getProp_absent: "map_of tbl name = None \<Longrightarrow> getProp (JObj tbl) name = Inr JUndefined"
  by simp

lemma getProp_present: "map_of tbl name = Some v \<Longrightarrow> getProp (JObj tbl) name = Inr v"
  by simp

lemma slotValue_REQUEST:
  assumes "getProp (JObj tbl) (parameterName item) = Inr v" "\<not> truthy v"
    "type item = REQUEST" "getProp ctx ''request'' = Inr (JObj tbl)"
  shows "slotValue mc ctx nxt item = Inr (JObj tbl)"
proof -
  have "getParam mc (JObj tbl) None (parameterName item) = Inr (JObj tbl)"
    using assms(1,2) by (rule getParam_source_falsy)
  then show ?thesis using assms(3,4) by (simp add: slotValue_def)
qed

lemma slotValue_RESPONSE:
  assumes "getProp (JObj tbl) (parameterName item) = Inr v" "\<not> truthy v"
    "type item = RESPONSE" "getProp ctx ''response'' = Inr (JObj tbl)"
  shows "slotValue mc ctx nxt item = Inr (JObj tbl)"
proof -
  have "getParam mc (JObj tbl) None (parameterName item) = Inr (JObj tbl)"
    using assms(1,2) by (rule getParam_source_falsy)
  then show ?thesis using assms(3,4) by (simp add: slotValue_def)
qed

lemma slotValue_CTX:
  assumes "getProp (JObj tbl) (parameterName item) = Inr v" "\<not> truthy v"
    "type item = CTX" "ctx = JObj tbl"
  shows "slotValue mc ctx nxt item = Inr ctx"
proof -
  have "getParam mc (JObj tbl) None (parameterName item) = Inr (JObj tbl)"
    using assms(1,2) by (rule getParam_source_falsy)
  then show ?thesis using assms(3,4) by (simp add: slotValue_def)
qed

lemma slotValue_BODY:
  assumes "getProp (JObj tbl) (parameterName item) = Inr v" "\<not> truthy v"
    "type item = BODY" "getProp ctx ''request'' = Inr rq" "getProp rq ''body'' = Inr (JObj tbl)"
  shows "slotValue mc ctx nxt item = Inr (JObj tbl)"
proof -
  have "getParam mc rq (Some ''body'') (parameterName item)
          = checkQueryParam mc (Some ''body'') (JObj tbl) (parameterName item)"
    using assms(5) _ assms(1,2) by (rule getParam_field_falsy) simp
  then show ?thesis using assms(3,4) by (simp add: slotValue_def checkQueryParam_def)
qed

lemma slotValue_HEADERS:
  assumes "getProp (JObj tbl) (parameterName item) = Inr v" "\<not> truthy v"
    "type item = HEADERS" "getProp ctx ''request'' = Inr rq" "getProp rq ''headers'' = Inr (JObj tbl)"
  shows "slotValue mc ctx nxt item = Inr (JObj tbl)"
proof -
  have "getParam mc rq (Some ''headers'') (parameterName item)
          = checkQueryParam mc (Some ''headers'') (JObj tbl) (parameterName item)"
    using assms(5) _ assms(1,2) by (rule getParam_field_falsy) simp
  then show ?thesis using assms(3,4) by (simp add: slotValue_def checkQueryParam_def)
qed

lemma slotValue_COOKIES:
  assumes "getProp (JObj tbl) (parameterName item) = Inr v" "\<not> truthy v"
    "type item = COOKIES" "getProp ctx ''cookies'' = Inr (JObj tbl)"
  shows "slotValue mc ctx nxt item = mc (JObj tbl) ''get'' [JStr (parameterName item)]"
proof -
  have "getParam mc ctx (Some ''cookies'') (parameterName item)
          = checkQueryParam mc (Some ''cookies'') (JObj tbl) (parameterName item)"
    using assms(4) _ assms(1,2) by (rule getParam_field_falsy) simp
  then show ?thesis using assms(3) by (simp add: slotValue_def checkQueryParam_def)
qed

lemma slotValue_QUERY:
  assumes "getProp (JObj tbl) (parameterName item) = Inr v" "\<not> truthy v"
    "type item = QUERY" "getProp ctx ''query'' = Inr (JObj tbl)"
  shows "slotValue mc ctx nxt item = Inr JUndefined"
proof -
  have "getParam mc ctx (Some ''query'') (parameterName item)
          = checkQueryParam mc (Some ''query'') (JObj tbl) (parameterName item)"
    using assms(4) _ assms(1,2) by (rule getParam_field_falsy) simp
  then show ?thesis using assms(3) by (simp add: slotValue_def checkQueryParam_def)
qed

text \<open>The slot of a binding whose named read gave a falsy value, for each source kind.\<close>

lemma slot_fallback:
  assumes e: "extractParameters mc ctx nxt ps = Inr args"
    and i: "item \<in> set ps" and d: "distinct (map index ps)"
    and v: "getProp (JObj tbl) (parameterName item) = Inr v" "\<not> truthy v"
  shows "(type item = QUERY \<and> getProp ctx ''query'' = Inr (JObj tbl)
            \<longrightarrow> args ! index item = Some JUndefined)
       \<and> (type item = REQUEST \<and> getProp ctx ''request'' = Inr (JObj tbl)
            \<longrightarrow> args ! index item = Some (JObj tbl))
       \<and> (type item = RESPONSE \<and> getProp ctx ''response'' = Inr (JObj tbl)
            \<longrightarrow> args ! index item = Some (JObj tbl))
       \<and> (type item = CTX \<and> ctx = JObj tbl \<longrightarrow> args ! index item = Some ctx)
       \<and> (type item = BODY
            \<and> (\<exists>rq. getProp ctx ''request'' = Inr rq \<and> getProp rq ''body'' = Inr (JObj tbl))
            \<longrightarrow> args ! index item = Some (JObj tbl))
       \<and> (type item = HEADERS
            \<and> (\<exists>rq. getProp ctx ''request'' = Inr rq \<and> getProp rq ''headers'' = Inr (JObj tbl))
            \<longrightarrow> args ! index item = Some (JObj tbl))
       \<and> (type item = COOKIES \<and> getProp ctx ''cookies'' = Inr (JObj tbl)
            \<longrightarrow> (\<exists>r. mc (JObj tbl) ''get'' [JStr (parameterName item)] = Inr r
                     \<and> args ! index item = Some r))"
proof -
  from extractParameters_slot [OF e i d] obtain w
    where w: "slotValue mc ctx nxt item = Inr w" "args ! index item = Some w" by blast
  have q: "type item = QUERY \<and> getProp ctx ''query'' = Inr (JObj tbl)
            \<longrightarrow> args ! index item = Some JUndefined"
    using w slotValue_QUERY [OF v, of ctx mc nxt] by auto
  have rq: "type item = REQUEST \<and> getProp ctx ''request'' = Inr (JObj tbl)
            \<longrightarrow> args ! index item = Some (JObj tbl)"
    using w slotValue_REQUEST [OF v, of ctx mc nxt] by auto
  have rs: "type item = RESPONSE \<and> getProp ctx ''response'' = Inr (JObj tbl)
            \<longrightarrow> args ! index item = Some (JObj tbl)"
    using w slotValue_RESPONSE [OF v, of ctx mc nxt] by auto
  have c: "type item = CTX \<and> ctx = JObj tbl \<longrightarrow> args ! index item = Some ctx"
    using w slotValue_CTX [OF v, of ctx mc nxt] by auto
  have b: "type item = BODY
            \<and> (\<exists>rq. getProp ctx ''request'' = Inr rq \<and> getProp rq ''body'' = Inr (JObj tbl))
            \<longrightarrow> args ! index item = Some (JObj tbl)"
    using w slotValue_BODY [OF v, of ctx _ mc nxt] by auto
  have h: "type item = HEADERS
            \<and> (\<exists>rq. getProp ctx ''request'' = Inr rq \<and> getProp rq ''headers'' = Inr (JObj tbl))
            \<longrightarrow> args ! index item = Some (JObj tbl)"
    using w slotValue_HEADERS [OF v, of ctx _ mc nxt] by auto
  have k: "type item = COOKIES \<and> getProp ctx ''cookies'' = Inr (JObj tbl)
            \<longrightarrow> (\<exists>r. mc (JObj tbl) ''get'' [JStr (parameterName item)] = Inr r
                     \<and> args ! index item = Some r)"
    using w slotValue_COOKIES [OF v, of ctx mc nxt] by auto
  from q rq rs c b h k show ?thesis by blast
qed

lemma exampleProps_reads:
  "getProp (JObj exampleProps) ''request'' = Inr (JObj exampleRequest)"
  "getProp (JObj exampleProps) ''response'' = Inr (JObj exampleResponse)"
  "getProp (JObj exampleProps) ''query'' = Inr (JObj exampleQuery)"
  "getProp (JObj exampleProps) ''cookies'' = Inr (JObj exampleJar)"
  "getProp (JObj exampleRequest) ''body'' = Inr (JObj exampleBody)"
  "getProp (JObj exampleRequest) ''headers'' = Inr (JObj exampleHeaders)"
  by (simp_all add: exampleProps_def exampleRequest_def)

lemma absentBindings_extract:
  "extractParameters jarCall (JObj exampleProps) JNext absentBindings =
     Inr exampleArgs"
  by (simp add: exampleArgs_def extractParameters_def absentBindings_def slotValue_def getParam_def
      checkQueryParam_def assignIndex_def jarCall_def exampleProps_def exampleRequest_def
      exampleResponse_def exampleBody_def exampleHeaders_def exampleQuery_def exampleJar_def)

lemma falsyBindings_extract:
  "extractParameters jarCall (JObj exampleProps) JNext falsyBindings =
     Inr falsyArgs"
  by (simp add: falsyArgs_def extractParameters_def falsyBindings_def slotValue_def getParam_def
      checkQueryParam_def assignIndex_def jarCall_def exampleProps_def exampleRequest_def
      exampleResponse_def exampleBody_def exampleHeaders_def exampleQuery_def exampleJar_def)

lemma rawBindings_extract:
  "extractParameters jarCall (JObj exampleProps) JNext rawBindings =
     Inr [Some (JObj exampleProps), None, Some JNext, Some (JObj exampleProps), Some JNext]"
  by (simp add: extractParameters_def rawBindings_def slotValue_def getParam_def
      checkQueryParam_def assignIndex_def exampleProps_def eval_nat_numeral)

text \<open>
  Claim C4.  For the empty binding list the extractor returns exactly
  \<open>(context, continuation)\<close>.  For every binding list, whatever the extractor returns is
  the array of the slots filled by index, followed by the two trailing arguments
  \<open>context\<close> and \<open>continuation\<close>, whether or not a binding already put them into a slot;
  for a non-empty list the slots reach up to the largest bound index, so the two
  trailing arguments sit right behind it.
\<close>

theorem extractParameters_trailing:
  "extractParameters mc ctx nxt [] = Inr [Some ctx, Some nxt]
   \<and> (extractParameters mc ctx nxt ps = Inr args \<longrightarrow>
        (\<exists>slots. fillArgs mc ctx nxt ps [] = Inr slots
                 \<and> args = slots @ [Some ctx, Some nxt]
                 \<and> length slots = (if ps = [] then 0 else Suc (Max (index ` set ps)))))"
proof -
  have "extractParameters mc ctx nxt [] = Inr [Some ctx, Some nxt]"
    by (simp add: extractParameters_def)
  moreover have "\<exists>slots. fillArgs mc ctx nxt ps [] = Inr slots
                 \<and> args = slots @ [Some ctx, Some nxt]
                 \<and> length slots = (if ps = [] then 0 else Suc (Max (index ` set ps)))"
    if e: "extractParameters mc ctx nxt ps = Inr args"
  proof -
    from e obtain slots where s: "fillArgs mc ctx nxt ps [] = Inr slots"
      and a: "args = slots @ [Some ctx, Some nxt]"
      by (auto simp: extractParameters_Inr)
    have "length slots = (if ps = [] then 0 else Suc (Max (index ` set ps)))"
    proof (cases "ps = []")
      case True
      then show ?thesis using s by simp
    next
      case False
      have "length slots = Max (insert 0 ((\<lambda>p. Suc (index p)) ` set ps))"
        using fillArgs_length [OF s] by simp
      also have "\<dots> = Max ((\<lambda>p. Suc (index p)) ` set ps)"
        using False by simp
      also have "\<dots> = Max (Suc ` index ` set ps)" by (simp add: image_image)
      also have "\<dots> = Suc (Max (index ` set ps))"
        using False by (simp add: mono_Max_commute [symmetric] mono_Suc)
      finally show ?thesis using False by simp
    qed
    with s a show ?thesis by blast
  qed
  ultimately show ?thesis by blast
qed

theorem extractParameters_trailing_witness:
  "extractParameters jarCall (JObj exampleProps) JNext rawBindings =
     Inr [Some (JObj exampleProps), None, Some JNext, Some (JObj exampleProps), Some JNext]
   \<and> (\<exists>slots. fillArgs jarCall (JObj exampleProps) JNext rawBindings [] = Inr slots
         \<and> [Some (JObj exampleProps), None, Some JNext, Some (JObj exampleProps), Some JNext]
             = slots @ [Some (JObj exampleProps), Some JNext]
         \<and> length slots = 3)"
proof -
  have m: "Suc (Max (index ` set rawBindings)) = 3" by (simp add: rawBindings_def)
  have n: "rawBindings \<noteq> []" by (simp add: rawBindings_def)
  show ?thesis
    using extractParameters_trailing [of jarCall "JObj exampleProps" JNext rawBindings
        "[Some (JObj exampleProps), None, Some JNext, Some (JObj exampleProps), Some JNext]"]
      rawBindings_extract m n
    by simp
qed

lemma exampleArgs_nth:
  "exampleArgs ! 0 = Some JUndefined"
  "exampleArgs ! 1 = Some (JObj exampleRequest)"
  "exampleArgs ! 2 = Some (JObj exampleResponse)"
  "exampleArgs ! 3 = Some (JObj exampleBody)"
  "exampleArgs ! 4 = Some (JObj exampleHeaders)"
  "exampleArgs ! 5 = Some JUndefined"
  "exampleArgs ! 6 = Some (JObj exampleProps)"
  by (simp_all add: exampleArgs_def eval_nat_numeral)

text \<open>
  Claim C7, as the code has it.  Take a binding of an extraction that succeeded, no other
  binding sharing its index, whose name is absent from the table of its source.  A
  query-param binding gets \<open>undefined\<close> in its slot, not the query map.  A request,
  response, context, body or header binding gets the whole source object.  A cookie
  binding gets what the \<open>get(name)\<close> lookup of the cookie jar returns, not the jar.
\<close>

theorem absent_field_fallback:
  assumes "extractParameters mc ctx nxt ps = Inr args"
    and "item \<in> set ps" and "distinct (map index ps)"
    and "map_of tbl (parameterName item) = None"
  shows "(type item = QUERY \<and> getProp ctx ''query'' = Inr (JObj tbl)
            \<longrightarrow> args ! index item = Some JUndefined)
       \<and> (type item = REQUEST \<and> getProp ctx ''request'' = Inr (JObj tbl)
            \<longrightarrow> args ! index item = Some (JObj tbl))
       \<and> (type item = RESPONSE \<and> getProp ctx ''response'' = Inr (JObj tbl)
            \<longrightarrow> args ! index item = Some (JObj tbl))
       \<and> (type item = CTX \<and> ctx = JObj tbl \<longrightarrow> args ! index item = Some ctx)
       \<and> (type item = BODY
            \<and> (\<exists>rq. getProp ctx ''request'' = Inr rq \<and> getProp rq ''body'' = Inr (JObj tbl))
            \<longrightarrow> args ! index item = Some (JObj tbl))
       \<and> (type item = HEADERS
            \<and> (\<exists>rq. getProp ctx ''request'' = Inr rq \<and> getProp rq ''headers'' = Inr (JObj tbl))
            \<longrightarrow> args ! index item = Some (JObj tbl))
       \<and> (type item = COOKIES \<and> getProp ctx ''cookies'' = Inr (JObj tbl)
            \<longrightarrow> (\<exists>r. mc (JObj tbl) ''get'' [JStr (parameterName item)] = Inr r
                     \<and> args ! index item = Some r))"
proof (rule slot_fallback [OF assms(1-3)])
  show "getProp (JObj tbl) (parameterName item) = Inr JUndefined"
    using assms(4) by simp
  show "\<not> truthy JUndefined" by simp
qed

theorem absent_field_fallback_witness:
  "extractParameters jarCall (JObj exampleProps) JNext absentBindings = Inr exampleArgs
   \<and> exampleArgs ! 0 = Some JUndefined
   \<and> exampleArgs ! 3 = Some (JObj exampleBody)
   \<and> (\<exists>r. jarCall (JObj exampleJar) ''get'' [JStr ''theme''] = Inr r \<and> exampleArgs ! 5 = Some r)"
proof -
  note e = absentBindings_extract
  have d: "distinct (map index absentBindings)" by (simp add: absentBindings_def)
  have iq: "\<lparr>parameterName = ''empty'', index = 0, type = QUERY\<rparr> \<in> set absentBindings"
    and ib: "\<lparr>parameterName = ''default'', index = 3, type = BODY\<rparr> \<in> set absentBindings"
    and ic: "\<lparr>parameterName = ''theme'', index = 5, type = COOKIES\<rparr> \<in> set absentBindings"
    by (simp_all add: absentBindings_def)
  have mq: "map_of exampleQuery (parameterName \<lparr>parameterName = ''empty'', index = 0, type = QUERY\<rparr>) = None"
    and mb: "map_of exampleBody (parameterName \<lparr>parameterName = ''default'', index = 3, type = BODY\<rparr>) = None"
    and mj: "map_of exampleJar (parameterName \<lparr>parameterName = ''theme'', index = 5, type = COOKIES\<rparr>) = None"
    by (simp_all add: exampleQuery_def exampleBody_def exampleJar_def)
  have "exampleArgs ! 0 = Some JUndefined"
    using absent_field_fallback [OF e iq d mq] by (simp del: getProp.simps add: exampleProps_reads)
  moreover have "exampleArgs ! 3 = Some (JObj exampleBody)"
    using absent_field_fallback [OF e ib d mb] by (simp del: getProp.simps add: exampleProps_reads)
  moreover have "\<exists>r. jarCall (JObj exampleJar) ''get'' [JStr ''theme''] = Inr r
      \<and> exampleArgs ! 5 = Some r"
    using absent_field_fallback [OF e ic d mj] by (simp del: getProp.simps add: exampleProps_reads)
  ultimately show ?thesis using e by simp
qed

theorem cookie_fallback_counterexample:
  "extractParameters jarCall (JObj exampleProps) JNext
       [\<lparr>parameterName = ''theme'', index = 0, type = COOKIES\<rparr>]
     = Inr [Some JUndefined, Some (JObj exampleProps), Some JNext]
   \<and> getProp (JObj exampleProps) ''cookies'' = Inr (JObj exampleJar)
   \<and> map_of exampleJar ''theme'' = None
   \<and> JUndefined \<noteq> JObj exampleJar"
  by (simp add: extractParameters_def slotValue_def getParam_def checkQueryParam_def
      assignIndex_def jarCall_def exampleProps_def exampleJar_def)

text \<open>
  Claim C10.  Take a binding of an extraction that succeeded, no other binding sharing
  its index, whose name is present in the table of its source with a falsy value.  The
  slot gets what it gets for an absent name, never the falsy value of the field: the whole
  source object for a request, response, context, body or header binding, the result of
  the \<open>get(name)\<close> lookup of the cookie jar for a cookie binding, and \<open>undefined\<close> for a
  query-param binding.
\<close>

theorem falsy_field_fallback:
  assumes "extractParameters mc ctx nxt ps = Inr args"
    and "item \<in> set ps" and "distinct (map index ps)"
    and "map_of tbl (parameterName item) = Some v" and "\<not> truthy v"
  shows "(type item = REQUEST \<and> getProp ctx ''request'' = Inr (JObj tbl)
            \<longrightarrow> args ! index item = Some (JObj tbl) \<and> JObj tbl \<noteq> v)
       \<and> (type item = RESPONSE \<and> getProp ctx ''response'' = Inr (JObj tbl)
            \<longrightarrow> args ! index item = Some (JObj tbl) \<and> JObj tbl \<noteq> v)
       \<and> (type item = CTX \<and> ctx = JObj tbl \<longrightarrow> args ! index item = Some ctx \<and> ctx \<noteq> v)
       \<and> (type item = BODY
            \<and> (\<exists>rq. getProp ctx ''request'' = Inr rq \<and> getProp rq ''body'' = Inr (JObj tbl))
            \<longrightarrow> args ! index item = Some (JObj tbl) \<and> JObj tbl \<noteq> v)
       \<and> (type item = HEADERS
            \<and> (\<exists>rq. getProp ctx ''request'' = Inr rq \<and> getProp rq ''headers'' = Inr (JObj tbl))
            \<longrightarrow> args ! index item = Some (JObj tbl) \<and> JObj tbl \<noteq> v)
       \<and> (type item = COOKIES \<and> getProp ctx ''cookies'' = Inr (JObj tbl)
            \<longrightarrow> (\<exists>r. mc (JObj tbl) ''get'' [JStr (parameterName item)] = Inr r
                     \<and> args ! index item = Some r))
       \<and> (type item = QUERY \<and> getProp ctx ''query'' = Inr (JObj tbl)
            \<longrightarrow> args ! index item = Some JUndefined)"
proof -
  have g: "getProp (JObj tbl) (parameterName item) = Inr v" using assms(4) by simp
  have n: "JObj tbl \<noteq> v" using assms(5) by auto
  from slot_fallback [OF assms(1-3) g assms(5)] n show ?thesis by blast
qed

theorem falsy_field_fallback_witness:
  "extractParameters jarCall (JObj exampleProps) JNext falsyBindings = Inr falsyArgs
   \<and> map_of exampleHeaders ''x-token'' = Some (JStr '''')
   \<and> falsyArgs ! 4 = Some (JObj exampleHeaders)
   \<and> map_of exampleQuery ''blank'' = Some (JStr '''')
   \<and> falsyArgs ! 0 = Some JUndefined
   \<and> map_of exampleJar ''sid'' = Some (JStr '''')
   \<and> jarCall (JObj exampleJar) ''get'' [JStr ''sid''] = Inr (JStr ''abc'')
   \<and> falsyArgs ! 5 = Some (JStr ''abc'')"
proof -
  note e = falsyBindings_extract
  have d: "distinct (map index falsyBindings)" by (simp add: falsyBindings_def)
  have ih: "\<lparr>parameterName = ''x-token'', index = 4, type = HEADERS\<rparr> \<in> set falsyBindings"
    and iq: "\<lparr>parameterName = ''blank'', index = 0, type = QUERY\<rparr> \<in> set falsyBindings"
    and ic: "\<lparr>parameterName = ''sid'', index = 5, type = COOKIES\<rparr> \<in> set falsyBindings"
    by (simp_all add: falsyBindings_def)
  have h: "map_of exampleHeaders ''x-token'' = Some (JStr '''')" by (simp add: exampleHeaders_def)
  have q: "map_of exampleQuery ''blank'' = Some (JStr '''')" by (simp add: exampleQuery_def)
  have j: "map_of exampleJar ''sid'' = Some (JStr '''')" by (simp add: exampleJar_def)
  have g: "jarCall (JObj exampleJar) ''get'' [JStr ''sid''] = Inr (JStr ''abc'')"
    by (simp add: jarCall_def exampleJar_def)
  have mh: "map_of exampleHeaders (parameterName \<lparr>parameterName = ''x-token'', index = 4, type = HEADERS\<rparr>) = Some (JStr '''')"
    using h by simp
  have mq: "map_of exampleQuery (parameterName \<lparr>parameterName = ''blank'', index = 0, type = QUERY\<rparr>) = Some (JStr '''')"
    using q by simp
  have mj: "map_of exampleJar (parameterName \<lparr>parameterName = ''sid'', index = 5, type = COOKIES\<rparr>) = Some (JStr '''')"
    using j by simp
  have fs: "\<not> truthy (JStr '''')" by simp
  have "falsyArgs ! 4 = Some (JObj exampleHeaders)"
    using falsy_field_fallback [OF e ih d mh fs] by (simp del: getProp.simps add: exampleProps_reads)
  moreover have "falsyArgs ! 0 = Some JUndefined"
    using falsy_field_fallback [OF e iq d mq fs] by (simp del: getProp.simps add: exampleProps_reads)
  moreover have "falsyArgs ! 5 = Some (JStr ''abc'')"
    using falsy_field_fallback [OF e ic d mj fs] g
    by (simp del: getProp.simps add: exampleProps_reads)
  ultimately show ?thesis using e h q j g by simp
qed

section \<open>Properties of the dispatcher and of the authorization handler\<close>

lemma map_of_setProp_same: "map_of (setProp ps name v) name = Some v"
  by (induction ps name v rule: setProp.induct) auto

lemma map_of_setProp_other: "n \<noteq> name \<Longrightarrow> map_of (setProp ps name v) n = map_of ps n"
  by (induction ps name v rule: setProp.induct) auto

lemma isPromise_truthy: "isPromise v \<Longrightarrow> truthy v"
  by (cases v) (simp_all add: isPromise_def)

lemma controllerHandler_result:
  assumes "extractParameters (call rt) (JObj (props ctx)) JNext pm = Inr args"
    and "invokeController rt cn k args ctx nxt = Inr (result, ctx')"
  shows "controllerHandler rt cn k pm ctx nxt =
           (if truthy result \<and> isPromise result then Inr (result, ctx')
            else if truthy result \<and> \<not> headerSent ctx'
            then Inr (JUndefined, ctx'\<lparr>props := setProp (props ctx') ''body'' result\<rparr>)
            else Inr (JUndefined, ctx'))"
  using assms by (simp add: controllerHandler_def)

text \<open>
  Claim C8, as the code has it.  When the controller method returns a truthy value that is
  not a promise, the dispatcher assigns it as the response body if the headers have not
  been sent, and leaves the context as the method left it if they have.  When the method
  returns a promise, the dispatcher returns that promise and assigns no body.
\<close>

theorem dispatcher_truthy_result:
  assumes "extractParameters (call rt) (JObj (props ctx)) JNext pm = Inr args"
    and "invokeController rt cn k args ctx nxt = Inr (result, ctx')"
  shows "(truthy result \<and> \<not> isPromise result \<and> \<not> headerSent ctx' \<longrightarrow>
            (\<exists>c. controllerHandler rt cn k pm ctx nxt = Inr (JUndefined, c)
                  \<and> c = ctx'\<lparr>props := setProp (props ctx') ''body'' result\<rparr>
                  \<and> map_of (props c) ''body'' = Some result))
       \<and> (truthy result \<and> \<not> isPromise result \<and> headerSent ctx' \<longrightarrow>
            controllerHandler rt cn k pm ctx nxt = Inr (JUndefined, ctx'))
       \<and> (isPromise result \<longrightarrow> controllerHandler rt cn k pm ctx nxt = Inr (result, ctx'))"
  using controllerHandler_result [OF assms] isPromise_truthy [of result]
  by (auto simp: map_of_setProp_same)

text \<open>
  Claim C9.  When the controller method returns a falsy value (\<open>0\<close>, the empty string,
  \<open>false\<close>, \<open>null\<close>, \<open>undefined\<close>; none of them is a promise), the dispatcher leaves the
  context, and with it the response body, as the method left it, also when the headers have
  not been sent.  Whenever the dispatcher does change the context, the returned value is
  truthy and no promise, and the change is the assignment of that value to the body.
\<close>

theorem dispatcher_falsy_result:
  assumes "extractParameters (call rt) (JObj (props ctx)) JNext pm = Inr args"
    and "invokeController rt cn k args ctx nxt = Inr (result, ctx')"
  shows "(\<not> truthy result \<longrightarrow>
            \<not> isPromise result \<and> controllerHandler rt cn k pm ctx nxt = Inr (JUndefined, ctx'))
       \<and> (\<forall>out c. controllerHandler rt cn k pm ctx nxt = Inr (out, c) \<and> c \<noteq> ctx' \<longrightarrow>
            truthy result \<and> \<not> isPromise result
            \<and> c = ctx'\<lparr>props := setProp (props ctx') ''body'' result\<rparr>)"
  using controllerHandler_result [OF assms] isPromise_truthy [of result]
  by (auto split: if_splits)

lemma example_no_bindings:
  "extractParameters (call exampleRuntime) (JObj (props c)) JNext [] = Inr [Some (JObj (props c)), Some JNext]"
  by (simp add: extractParameters_def)

lemma example_invocations:
  "invokeController exampleRuntime ''Items'' ''count'' a c n = Inr (JNum 0, c)"
  "invokeController exampleRuntime ''Items'' ''hello'' a c n = Inr (JStr ''Hello'', c)"
  "invokeController exampleRuntime ''Items'' ''later'' a c n = Inr (JPromise 1, c)"
  by (simp_all add: exampleRuntime_def)

lemma example_headerSent:
  "\<not> headerSent (exampleContext p)" "headerSent sentContext"
  by (simp_all add: headerSent_def exampleContext_def sentContext_def exampleProps_def)

theorem dispatcher_truthy_result_witness:
  "controllerHandler exampleRuntime ''Items'' ''hello'' [] (exampleContext None) finished
     = Inr (JUndefined, (exampleContext None)\<lparr>props := setProp (props (exampleContext None)) ''body'' (JStr ''Hello'')\<rparr>)
   \<and> controllerHandler exampleRuntime ''Items'' ''hello'' [] sentContext finished
     = Inr (JUndefined, sentContext)
   \<and> controllerHandler exampleRuntime ''Items'' ''later'' [] (exampleContext None) finished
     = Inr (JPromise 1, exampleContext None)"
proof -
  have "controllerHandler exampleRuntime ''Items'' ''hello'' [] (exampleContext None) finished
     = Inr (JUndefined, (exampleContext None)\<lparr>props := setProp (props (exampleContext None)) ''body'' (JStr ''Hello'')\<rparr>)"
    using dispatcher_truthy_result [OF example_no_bindings example_invocations(2),
        of "exampleContext None" finished] example_headerSent(1) [of None]
    by (simp add: isPromise_def)
  moreover have "controllerHandler exampleRuntime ''Items'' ''hello'' [] sentContext finished
     = Inr (JUndefined, sentContext)"
    using dispatcher_truthy_result [OF example_no_bindings example_invocations(2),
        of sentContext finished] example_headerSent(2)
    by (simp add: isPromise_def)
  moreover have "controllerHandler exampleRuntime ''Items'' ''later'' [] (exampleContext None) finished
     = Inr (JPromise 1, exampleContext None)"
    using dispatcher_truthy_result [OF example_no_bindings example_invocations(3),
        of "exampleContext None" finished]
    by (simp add: isPromise_def)
  ultimately show ?thesis by simp
qed

theorem dispatcher_zero_counterexample:
  "invokeController exampleRuntime ''Items'' ''count''
       [Some (JObj (props (exampleContext None))), Some JNext] (exampleContext None) finished
     = Inr (JNum 0, exampleContext None)
   \<and> \<not> isPromise (JNum 0)
   \<and> \<not> headerSent (exampleContext None)
   \<and> controllerHandler exampleRuntime ''Items'' ''count'' [] (exampleContext None) finished
     = Inr (JUndefined, exampleContext None)
   \<and> map_of (props (exampleContext None)) ''body'' \<noteq> Some (JNum 0)"
  by (simp add: controllerHandler_def extractParameters_def exampleRuntime_def isPromise_def
      headerSent_def exampleContext_def exampleProps_def)

theorem dispatcher_falsy_result_witness:
  "\<not> truthy (JNum 0) \<and> \<not> headerSent (exampleContext None)
   \<and> controllerHandler exampleRuntime ''Items'' ''count'' [] (exampleContext None) finished
     = Inr (JUndefined, exampleContext None)"
  using dispatcher_falsy_result [OF example_no_bindings example_invocations(1),
      of "exampleContext None" finished] example_headerSent(1) [of None]
  by simp

text \<open>The loop over the roles, when every check resolves.\<close>

lemma checkRoles_resolved:
  "\<forall>r\<in>set roles. \<exists>b. isInRole p r = Inr b
   \<Longrightarrow> checkRoles p roles acc = Inr (acc \<and> (\<forall>r\<in>set roles. isInRole p r = Inr True))"
proof (induction roles arbitrary: acc)
  case Nil
  show ?case by simp
next
  case (Cons r roles)
  then obtain b where b: "isInRole p r = Inr b" by auto
  have "checkRoles p (r # roles) acc = checkRoles p roles (if \<not> b then False else acc)"
    using b by simp
  also have "\<dots> = Inr ((if \<not> b then False else acc) \<and> (\<forall>r\<in>set roles. isInRole p r = Inr True))"
    using Cons by simp
  finally show ?case using b by auto
qed

text \<open>
  Claim C2.  A request reaches the handler built for a list of required roles.  If the
  principal of the request is missing, or its \<open>isAuthenticated()\<close> resolves to false, the
  handler fails with status 401.  If the principal is authenticated and the role checks
  resolve, with false for at least one required role, the handler fails with status 403.
  If the principal is authenticated and every required role check resolves to true, the
  handler calls its continuation and returns what that returns.
\<close>

theorem authorization_decision:
  "(principal ctx = None \<or> (\<exists>p. principal ctx = Some p \<and> isAuthenticated p = Inr False)
      \<longrightarrow> runHandler rt (authorizationHandlerFactory roles) ctx nxt = Inl (HttpError 401))
   \<and> (\<forall>p. principal ctx = Some p \<and> isAuthenticated p = Inr True
          \<and> (\<forall>r\<in>set roles. \<exists>b. isInRole p r = Inr b)
          \<and> (\<exists>r\<in>set roles. isInRole p r = Inr False)
      \<longrightarrow> runHandler rt (authorizationHandlerFactory roles) ctx nxt = Inl (HttpError 403))
   \<and> (\<forall>p. principal ctx = Some p \<and> isAuthenticated p = Inr True
          \<and> (\<forall>r\<in>set roles. isInRole p r = Inr True)
      \<longrightarrow> runHandler rt (authorizationHandlerFactory roles) ctx nxt = nxt ctx)"
proof -
  have run: "runHandler rt (authorizationHandlerFactory roles) ctx nxt = authorizationHandler roles ctx nxt"
    by (simp add: authorizationHandlerFactory_def)
  have a: "authorizationHandler roles ctx nxt = Inl (HttpError 401)"
    if "principal ctx = None \<or> (\<exists>p. principal ctx = Some p \<and> isAuthenticated p = Inr False)"
    using that by (auto simp: authorizationHandler_def)
  have b: "authorizationHandler roles ctx nxt = Inl (HttpError 403)"
    if "principal ctx = Some p" "isAuthenticated p = Inr True"
      "\<forall>r\<in>set roles. \<exists>b. isInRole p r = Inr b" "\<exists>r\<in>set roles. isInRole p r = Inr False" for p
  proof -
    have "\<not> (\<forall>r\<in>set roles. isInRole p r = Inr True)"
      using that(4) by fastforce
    then have "checkRoles p roles True = Inr False"
      using checkRoles_resolved [OF that(3), of True] by simp
    then show ?thesis using that(1,2) by (simp add: authorizationHandler_def)
  qed
  have c: "authorizationHandler roles ctx nxt = nxt ctx"
    if "principal ctx = Some p" "isAuthenticated p = Inr True"
      "\<forall>r\<in>set roles. isInRole p r = Inr True" for p
  proof -
    have "\<forall>r\<in>set roles. \<exists>b. isInRole p r = Inr b" using that(3) by auto
    then have "checkRoles p roles True = Inr True"
      using checkRoles_resolved [of roles p True] that(3) by simp
    then show ?thesis using that(1,2) by (simp add: authorizationHandler_def)
  qed
  from a b c show ?thesis unfolding run by blast
qed

theorem authorization_decision_witness:
  "runHandler exampleRuntime (authorizationHandlerFactory [''role a'', ''role b''])
       (exampleContext None) finished = Inl (HttpError 401)
   \<and> runHandler exampleRuntime (authorizationHandlerFactory [''role a'', ''role b''])
       (exampleContext (Some (examplePrincipal False [''role a'', ''role b'']))) finished
       = Inl (HttpError 401)
   \<and> runHandler exampleRuntime (authorizationHandlerFactory [''role a'', ''role b''])
       (exampleContext (Some (examplePrincipal True [''role a'']))) finished
       = Inl (HttpError 403)
   \<and> runHandler exampleRuntime (authorizationHandlerFactory [''role a'', ''role b''])
       (exampleContext (Some (examplePrincipal True [''role b'', ''role a'']))) finished
       = finished (exampleContext (Some (examplePrincipal True [''role b'', ''role a''])))"
proof -
  let ?roles = "[''role a'', ''role b'']"
  let ?h = "authorizationHandlerFactory ?roles"
  have "runHandler exampleRuntime ?h (exampleContext None) finished = Inl (HttpError 401)"
    using authorization_decision [of "exampleContext None" exampleRuntime ?roles finished]
    by (simp add: exampleContext_def)
  moreover have "runHandler exampleRuntime ?h
       (exampleContext (Some (examplePrincipal False ?roles))) finished = Inl (HttpError 401)"
    using authorization_decision [of "exampleContext (Some (examplePrincipal False ?roles))"
        exampleRuntime ?roles finished]
    by (auto simp: exampleContext_def examplePrincipal_def)
  moreover have "runHandler exampleRuntime ?h
       (exampleContext (Some (examplePrincipal True [''role a'']))) finished = Inl (HttpError 403)"
    using authorization_decision [of "exampleContext (Some (examplePrincipal True [''role a'']))"
        exampleRuntime ?roles finished]
    by (auto simp: exampleContext_def examplePrincipal_def)
  moreover have "runHandler exampleRuntime ?h
       (exampleContext (Some (examplePrincipal True [''role b'', ''role a'']))) finished
       = finished (exampleContext (Some (examplePrincipal True [''role b'', ''role a''])))"
    using authorization_decision [of "exampleContext (Some (examplePrincipal True [''role b'', ''role a'']))"
        exampleRuntime ?roles finished]
    by (auto simp: exampleContext_def examplePrincipal_def)
  ultimately show ?thesis by simp
qed

section \<open>Properties of route registration\<close>

lemma registerMethod_route:
  "registerMethod c cm (controllerParameter ctrl) (authorizeAll ctrl) (authorize ctrl)
       (resolveMiddleware c (middleware cm)) r m =
     (if method' m \<in> set (methods r)
      then Inr (r\<lparr>stack := stack r @ [route_spec c ctrl cm m]\<rparr>)
      else Inl TypeError)"
  by (simp add: registerMethod_def register_def route_spec_def authorizationChain_spec_def
      bindings_spec_def authorizationHandlerFactory_def handlerFactory_def Let_def
      split: option.splits)

lemma forEach_register:
  assumes f: "\<And>r m. f r m = (if method' m \<in> set (methods r)
                               then Inr (r\<lparr>stack := stack r @ [g m]\<rparr>) else Inl TypeError)"
  shows "forEachM f ms r = Inr r' \<Longrightarrow> r' = r\<lparr>stack := stack r @ map g ms\<rparr>"
proof (induction ms arbitrary: r)
  case Nil
  then show ?case by simp
next
  case (Cons m ms)
  from Cons.prems obtain r1 where r1: "f r m = Inr r1" and rest: "forEachM f ms r1 = Inr r'"
    by (auto simp: andThen_eq_Inr)
  from r1 have "r1 = r\<lparr>stack := stack r @ [g m]\<rparr>"
    by (simp add: f split: if_splits)
  with Cons.IH [OF rest] show ?case by simp
qed

lemma forEach_methods:
  "forEachM (registerMethod c cm (controllerParameter ctrl) (authorizeAll ctrl) (authorize ctrl)
       (resolveMiddleware c (middleware cm))) ms r = Inr r'
   \<Longrightarrow> r' = r\<lparr>stack := stack r @ map (route_spec c ctrl cm) ms\<rparr>"
  by (rule forEach_register [where g = "route_spec c ctrl cm"]) (rule registerMethod_route)

lemma registerController_routes:
  "registerController c r ctrl = Inr r' \<Longrightarrow> r' = r\<lparr>stack := stack r @ routes_spec c ctrl\<rparr>"
  by (auto simp: registerController_def routes_spec_def Let_def
      split: option.splits dest: forEach_methods)

lemma forEach_controllers:
  "forEachM (registerController c) ctrls r = Inr r'
   \<Longrightarrow> r' = r\<lparr>stack := stack r @ concat (map (routes_spec c) ctrls)\<rparr>"
proof (induction ctrls arbitrary: r)
  case Nil
  then show ?case by simp
next
  case (Cons ctrl ctrls)
  from Cons.prems obtain r1 where r1: "registerController c r ctrl = Inr r1"
    and rest: "forEachM (registerController c) ctrls r1 = Inr r'"
    by (auto simp: andThen_eq_Inr)
  from registerController_routes [OF r1] Cons.IH [OF rest] show ?case by simp
qed

lemma registerControllers_stack:
  assumes "registerControllers D server = Inr r'"
  shows "stack r' = stack (router server)
           @ concat (map (routes_spec (container server)) (controllers (container server)))"
  using assms
  by (auto simp: registerControllers_def Let_def dest!: forEach_controllers split: if_splits)


lemma example_registration:
  "registerControllers ''/'' exampleServer = Inr (exampleRouter\<lparr>stack := [helloRoute]\<rparr>)"
  by (simp add: registerControllers_def registerController_def registerMethod_def register_def
      resolveMiddleware_def authorizationHandlerFactory_def handlerFactory_def pathJoin_def
      normalize_path_def isString_def isSlash_def exampleServer_def exampleContainer_def
      exampleRouter_def itemsController_def itemsMetadata_def helloMetadata_def helloRoute_def)


section \<open>Properties of the request pipeline\<close>

lemma getCurrentPrincipal_synthesized:
  assumes "AuthProvider server = None"
  shows "\<exists>p. getCurrentPrincipal server ctx = Inr (Some p)
             \<and> isAuthenticated p = Inr False
             \<and> (\<forall>role. isInRole p role = Inr False)
             \<and> (\<forall>resourceId. isResourceOwner p resourceId = Inr False)
             \<and> (\<forall>k. principalMiddleware server ctx k =
                    andThen (k (ctx\<lparr>principal := Some p\<rparr>)) (\<lambda>(v, c). Inr (JUndefined, c)))"
  using assms by (simp add: getCurrentPrincipal_def principalMiddleware_def)

lemma authorizationHandler_unauthenticated:
  "principal ctx = Some p \<Longrightarrow> isAuthenticated p = Inr False
   \<Longrightarrow> authorizationHandler roles ctx nxt = Inl (HttpError 401)"
  by (simp add: authorizationHandler_def)

lemma compose_forwards:
  "\<forall>h\<in>set hs. forwards rt h
   \<Longrightarrow> \<exists>ctx'. principal ctx' = principal ctx \<and> compose rt (hs @ rest) ctx nxt = compose rt rest ctx' nxt"
proof (induction hs arbitrary: ctx)
  case Nil
  show ?case by auto
next
  case (Cons h hs)
  then have "forwards rt h" by simp
  then obtain c1 where c1: "principal c1 = principal ctx"
    "runHandler rt h ctx (\<lambda>c. compose rt (hs @ rest) c nxt) = compose rt (hs @ rest) c1 nxt"
    unfolding forwards_def by blast
  from Cons.IH [of c1] Cons.prems obtain c2 where c2: "principal c2 = principal c1"
    "compose rt (hs @ rest) c1 nxt = compose rt rest c2 nxt" by auto
  from c1 c2 show ?case by auto
qed

lemma runApp_forwards:
  "\<forall>h\<in>set hs. forwards rt h
   \<Longrightarrow> \<exists>ctx'. principal ctx' = principal ctx
         \<and> runApp rt server (map Use hs @ rest) ctx nxt = runApp rt server rest ctx' nxt"
proof (induction hs arbitrary: ctx)
  case Nil
  show ?case by auto
next
  case (Cons h hs)
  then have "forwards rt h" by simp
  then obtain c1 where c1: "principal c1 = principal ctx"
    "runHandler rt h ctx (\<lambda>c. runApp rt server (map Use hs @ rest) c nxt)
       = runApp rt server (map Use hs @ rest) c1 nxt"
    unfolding forwards_def by blast
  from Cons.IH [of c1] Cons.prems obtain c2 where c2: "principal c2 = principal c1"
    "runApp rt server (map Use hs @ rest) c1 nxt = runApp rt server rest c2 nxt" by auto
  from c1 c2 show ?case by auto
qed

lemma authorizationChain_rule:
  assumes "authorizeAll ctrl \<noteq> None \<or> (\<exists>am a. authorize ctrl = Some am \<and> map_of am k = Some a)"
  shows "\<exists>roles rest. authorizationChain_spec ctrl k = AuthorizationHandler roles # rest"
  using assms by (auto simp: authorizationChain_spec_def split: option.splits)

lemma build_app:
  "build D server = Inr app \<Longrightarrow> registerControllers D server = Inr r
   \<Longrightarrow> app = PrincipalMiddleware # map Use (configFn server) @ RouterRoutes r # map Use (errorConfigFn server)"
  by (simp add: build_def Let_def)

text \<open>A request whose principal is not authenticated, at a router that matches it to a
  route with an authorization rule behind middleware that hands on.\<close>

lemma guarded_route_unauthorized:
  assumes p: "principal ctx = Some p" "isAuthenticated p = Inr False"
    and mt: "\<And>c. matchRoutes rt r c = route_spec ct ctrl cm m # others"
    and rule: "authorizeAll ctrl \<noteq> None
               \<or> (\<exists>am a. authorize ctrl = Some am \<and> map_of am (key m) = Some a)"
    and fw: "\<forall>h\<in>set (resolveMiddleware ct (middleware cm))
                   \<union> set (resolveMiddleware ct (middleware m)). forwards rt h"
  shows "runApp rt server (RouterRoutes r # rest) ctx nxt = Inl (HttpError 401)"
proof -
  from authorizationChain_rule [OF rule] obtain roles tl
    where a: "authorizationChain_spec ctrl (key m) = AuthorizationHandler roles # tl" by blast
  let ?mw = "resolveMiddleware ct (middleware cm) @ resolveMiddleware ct (middleware m)"
  let ?k = "\<lambda>c. runApp rt server rest c nxt"
  have "concat (map handlers (matchRoutes rt r ctx))
          = ?mw @ (AuthorizationHandler roles # tl
                   @ [ControllerHandler (target cm) (key m) (bindings_spec ctrl (key m))]
                   @ concat (map handlers others))"
    using a by (simp add: mt route_spec_def)
  moreover have "\<forall>h\<in>set ?mw. forwards rt h" using fw by auto
  ultimately obtain c1 where c1: "principal c1 = principal ctx"
    "compose rt (concat (map handlers (matchRoutes rt r ctx))) ctx ?k
       = compose rt (AuthorizationHandler roles # tl
                   @ [ControllerHandler (target cm) (key m) (bindings_spec ctrl (key m))]
                   @ concat (map handlers others)) c1 ?k"
    using compose_forwards [of ?mw rt ctx _ ?k] by metis
  have "compose rt (AuthorizationHandler roles # tl
                   @ [ControllerHandler (target cm) (key m) (bindings_spec ctrl (key m))]
                   @ concat (map handlers others)) c1 ?k = Inl (HttpError 401)"
    using c1(1) p by (simp add: authorizationHandler_unauthenticated [of _ p])
  with c1(2) show ?thesis by simp
qed


lemma example_forwards:
  "forwards exampleRuntime (HandlerFn 0)" "forwards exampleRuntime (BaseMiddlewareWrapper n)"
  by (auto simp: forwards_def exampleRuntime_def)

lemma example_build:
  "build ''/'' exampleServer =
     Inr [PrincipalMiddleware, Use (HandlerFn 0), RouterRoutes (exampleRouter\<lparr>stack := [helloRoute]\<rparr>)]"
  by (simp add: build_def example_registration) (simp add: exampleServer_def)

lemma helloRoute_spec:
  "route_spec (container exampleServer) itemsController itemsMetadata helloMetadata = helloRoute"
  by (simp add: route_spec_def helloRoute_def helloMetadata_def itemsMetadata_def
      itemsController_def resolveMiddleware_def exampleServer_def exampleContainer_def
      authorizationChain_spec_def bindings_spec_def pathJoin_def normalize_path_def
      isString_def isSlash_def)


lemma halting_registration:
  "registerControllers ''/'' haltingServer = Inr (exampleRouter\<lparr>stack := [haltingRoute]\<rparr>)"
  by (simp add: registerControllers_def registerController_def registerMethod_def register_def
      resolveMiddleware_def authorizationHandlerFactory_def handlerFactory_def pathJoin_def
      normalize_path_def isString_def isSlash_def haltingServer_def exampleServer_def
      haltingController_def haltingMetadata_def
      exampleRouter_def itemsController_def helloMetadata_def haltingRoute_def)


end
